theory Spec2Isabelle
  imports Main
begin

section \<open>Data model\<close>

text \<open>
  The \<^verbatim>\<open>models\<close>, \<^verbatim>\<open>errors\<close>, \<^verbatim>\<open>repositories\<close> and \<^verbatim>\<open>oauth2\<close> packages are
  used by the use cases and handlers but their sources are not part of the files
  verified here. Their types are written down as the use cases read and write them;
  their functions are modelled from the specification and marked as such.
\<close>

text \<open>Modelled from the spec: the ownership levels (section 3 and 6), \<open>Lender < Owner\<close>.\<close>

datatype OwnershipLevel = Lender | Owner

fun level_rank :: "OwnershipLevel \<Rightarrow> nat" where
  "level_rank Lender = 0"
| "level_rank Owner = 1"

text \<open>
  \<^verbatim>\<open>models.AuthenticationType\<close> is a string type with two named values and a
  \<^verbatim>\<open>Valid()\<close> method; every other string, the zero value \<^verbatim>\<open>""\<close> included, is
  \<open>OtherAuthenticationType\<close>.
\<close>

datatype AuthenticationType = OAuth2 | KeyPair | OtherAuthenticationType string

definition zero_AuthenticationType :: AuthenticationType where
  "zero_AuthenticationType = OtherAuthenticationType []"

fun Valid :: "AuthenticationType \<Rightarrow> bool" where
  "Valid OAuth2 = True"
| "Valid KeyPair = True"
| "Valid (OtherAuthenticationType s) = False"

record Permission =
  p_RoleID :: string
  p_Service :: string
  p_OwnershipLevel :: OwnershipLevel
  p_Action :: string
  p_Resource :: string
  p_Alias :: string

record ServiceAccount =
  sa_ID :: string
  sa_Name :: string
  sa_KeyID :: string
  sa_KeySecret :: string
  sa_Email :: string
  sa_Picture :: string
  sa_AuthenticationType :: AuthenticationType
  sa_BaseRoleID :: string

record Role =
  r_ID :: string
  r_Name :: string
  r_IsBaseRole :: bool

record RoleBinding =
  rb_ServiceAccountID :: string
  rb_RoleID :: string

text \<open>\<^verbatim>\<open>usecases.ServiceAccountWithNested\<close> (the fields the code below reads).\<close>

record ServiceAccountWithNested =
  sawn_ID :: string
  sawn_Name :: string
  sawn_Email :: string
  sawn_Picture :: string
  sawn_PermissionsStrings :: "string list"
  sawn_PermissionsAliases :: "(string \<times> string) list"
  sawn_Permissions :: "Permission list"
  sawn_RolesIDs :: "string list"
  sawn_AuthenticationType :: AuthenticationType

datatype error =
    EntityNotFoundError
  | UserDoesntHaveAllPermissionsError
  | MalformedPermissionError
  | StorageError
  | ProviderError
  | BodyError
  | Panic

section \<open>The storage collaborator\<close>

record Store =
  service_accounts :: "ServiceAccount list"
  roles :: "Role list"
  role_bindings :: "RoleBinding list"
  permissions :: "Permission list"

text \<open>
  The world a use case runs in: the database, the fresh identifiers still to be handed
  out (to \<^verbatim>\<open>uuid.NewV4\<close>, to the key-pair generator and to the database when it
  assigns an id), and the number of storage calls that still succeed before the
  connection fails (\<open>None\<close>: it never fails).
\<close>

record World =
  db :: Store
  entropy :: "string list"
  calls_left :: "nat option"

type_synonym 'a action = "World \<Rightarrow> (error + 'a) \<times> World"

definition ret :: "'a \<Rightarrow> 'a action" where
  "ret x w = (Inr x, w)"

definition throw :: "error \<Rightarrow> 'a action" where
  "throw e w = (Inl e, w)"

text \<open>Sequencing with Go's \<^verbatim>\<open>if err != nil { return err }\<close> after every call.\<close>

definition and_then :: "'a action \<Rightarrow> ('a \<Rightarrow> 'b action) \<Rightarrow> 'b action" where
  "and_then m f w = (case m w of (Inl e, w') \<Rightarrow> (Inl e, w') | (Inr x, w') \<Rightarrow> f x w')"

fun for_each :: "'a list \<Rightarrow> ('a \<Rightarrow> unit action) \<Rightarrow> unit action" where
  "for_each [] f = ret ()"
| "for_each (x # xs) f = and_then (f x) (\<lambda>_. for_each xs f)"

text \<open>Every storage call first needs the connection.\<close>

definition storage_call :: "unit action" where
  "storage_call w =
     (case calls_left w of
        None \<Rightarrow> (Inr (), w)
      | Some 0 \<Rightarrow> (Inl StorageError, w)
      | Some (Suc n) \<Rightarrow> (Inr (), w\<lparr>calls_left := Some n\<rparr>))"

text \<open>\<^verbatim>\<open>uuid.Must(uuid.NewV4())\<close> panics when no randomness can be read.\<close>

definition draw :: "string action" where
  "draw w =
     (case entropy w of
        [] \<Rightarrow> (Inl Panic, w)
      | u # us \<Rightarrow> (Inr u, w\<lparr>entropy := us\<rparr>))"

definition read_db :: "(Store \<Rightarrow> 'a) \<Rightarrow> 'a action" where
  "read_db f = and_then storage_call (\<lambda>_ w. (Inr (f (db w)), w))"

definition write_db :: "(Store \<Rightarrow> Store) \<Rightarrow> unit action" where
  "write_db f = and_then storage_call (\<lambda>_ w. (Inr (), w\<lparr>db := f (db w)\<rparr>))"

definition find_or_not_found :: "('a \<Rightarrow> bool) \<Rightarrow> 'a list \<Rightarrow> 'a action" where
  "find_or_not_found P xs =
     (case find P xs of None \<Rightarrow> throw EntityNotFoundError | Some x \<Rightarrow> ret x)"

text \<open>
  Modelled from the spec: the storage collaborator interface of section 6 (the
  \<^verbatim>\<open>repositories\<close> package is missing); every operation of this section is
  modelled so. Lookups by id, email and key pair fail with \<open>EntityNotFoundError\<close> when
  nothing matches (section 7); creation and binding append a row; update overwrites the
  row with the same id; \<^verbatim>\<open>DropPermissions\<close> removes the permissions of a role and
  \<^verbatim>\<open>ForRole\<close> lists them.
\<close>

definition ServiceAccounts_Get :: "string \<Rightarrow> ServiceAccount action" where
  "ServiceAccounts_Get saID =
     and_then (read_db service_accounts) (find_or_not_found (\<lambda>sa. sa_ID sa = saID))"

definition ServiceAccounts_ForEmail :: "string \<Rightarrow> ServiceAccount action" where
  "ServiceAccounts_ForEmail email =
     and_then (read_db service_accounts) (find_or_not_found (\<lambda>sa. sa_Email sa = email))"

definition ServiceAccounts_ForKeyPair :: "string \<Rightarrow> string \<Rightarrow> ServiceAccount action" where
  "ServiceAccounts_ForKeyPair keyID keySecret =
     and_then (read_db service_accounts)
       (find_or_not_found (\<lambda>sa. sa_KeyID sa = keyID \<and> sa_KeySecret sa = keySecret))"

definition ServiceAccounts_Create :: "ServiceAccount \<Rightarrow> unit action" where
  "ServiceAccounts_Create sa =
     write_db (\<lambda>s. s\<lparr>service_accounts := service_accounts s @ [sa]\<rparr>)"

definition ServiceAccounts_Update :: "ServiceAccount \<Rightarrow> unit action" where
  "ServiceAccounts_Update sa =
     write_db (\<lambda>s. s\<lparr>service_accounts :=
       map (\<lambda>x. if sa_ID x = sa_ID sa then sa else x) (service_accounts s)\<rparr>)"

text \<open>
  Modelled from the spec: \<^verbatim>\<open>DropBindings\<close> drops all non-base role bindings of the
  account; the binding to the account's own base role is never removed (sections 3
  and 4.3).
\<close>

definition is_base_binding :: "Store \<Rightarrow> RoleBinding \<Rightarrow> bool" where
  "is_base_binding s b =
     list_ex (\<lambda>sa. sa_ID sa = rb_ServiceAccountID b \<and> sa_BaseRoleID sa = rb_RoleID b)
       (service_accounts s)"

definition ServiceAccounts_DropBindings :: "string \<Rightarrow> unit action" where
  "ServiceAccounts_DropBindings saID =
     write_db (\<lambda>s. s\<lparr>role_bindings :=
       filter (\<lambda>b. rb_ServiceAccountID b \<noteq> saID \<or> is_base_binding s b) (role_bindings s)\<rparr>)"

text \<open>
  Modelled from the spec: the database assigns the new role its id (the caller reads
  \<^verbatim>\<open>r.ID\<close> after \<^verbatim>\<open>Roles.Create(r)\<close>); a database that cannot do so fails the call.
\<close>

definition assigned_id :: "string action" where
  "assigned_id w =
     (case entropy w of
        [] \<Rightarrow> (Inl StorageError, w)
      | u # us \<Rightarrow> (Inr u, w\<lparr>entropy := us\<rparr>))"

definition Roles_Create :: "Role \<Rightarrow> Role action" where
  "Roles_Create r =
     and_then storage_call (\<lambda>_.
     and_then assigned_id (\<lambda>u w.
       (Inr (r\<lparr>r_ID := u\<rparr>), w\<lparr>db := (db w)\<lparr>roles := roles (db w) @ [r\<lparr>r_ID := u\<rparr>]\<rparr>\<rparr>)))"

definition Roles_Bind :: "RoleBinding \<Rightarrow> unit action" where
  "Roles_Bind b = write_db (\<lambda>s. s\<lparr>role_bindings := role_bindings s @ [b]\<rparr>)"

definition Roles_DropPermissions :: "string \<Rightarrow> unit action" where
  "Roles_DropPermissions roleID =
     write_db (\<lambda>s. s\<lparr>permissions := filter (\<lambda>p. p_RoleID p \<noteq> roleID) (permissions s)\<rparr>)"

definition Permissions_Create :: "Permission \<Rightarrow> unit action" where
  "Permissions_Create p = write_db (\<lambda>s. s\<lparr>permissions := permissions s @ [p]\<rparr>)"

definition permissions_for_role :: "Store \<Rightarrow> string \<Rightarrow> Permission list" where
  "permissions_for_role s roleID = filter (\<lambda>p. p_RoleID p = roleID) (permissions s)"

definition Permissions_ForRole :: "string \<Rightarrow> Permission list action" where
  "Permissions_ForRole roleID = read_db (\<lambda>s. permissions_for_role s roleID)"

text \<open>
  Modelled from the spec (4.2): the permissions attached to the account's base role and
  to every role reachable through its role bindings.
\<close>

definition roles_of :: "Store \<Rightarrow> string \<Rightarrow> string list" where
  "roles_of s saID =
     map sa_BaseRoleID (filter (\<lambda>sa. sa_ID sa = saID) (service_accounts s)) @
     map rb_RoleID (filter (\<lambda>b. rb_ServiceAccountID b = saID) (role_bindings s))"

definition permissions_for_service_account :: "Store \<Rightarrow> string \<Rightarrow> Permission list" where
  "permissions_for_service_account s saID =
     filter (\<lambda>p. p_RoleID p \<in> set (roles_of s saID)) (permissions s)"

definition Permissions_ForServiceAccount :: "string \<Rightarrow> Permission list action" where
  "Permissions_ForServiceAccount saID = read_db (\<lambda>s. permissions_for_service_account s saID)"

text \<open>
  Modelled from the spec: \<^verbatim>\<open>WithTransaction(fn)\<close> (section 6; \<^verbatim>\<open>WithPGTx\<close> in the
  code) runs the callback against the database and commits its writes only when the
  callback returns no error; otherwise the database is what it was before.
\<close>

definition WithPGTx :: "'a action \<Rightarrow> 'a action" where
  "WithPGTx body w =
     (case body w of
        (Inl e, w') \<Rightarrow> (Inl e, w'\<lparr>db := db w\<rparr>)
      | (Inr x, w') \<Rightarrow> (Inr x, w'))"

section \<open>Permission matching\<close>

text \<open>
  Modelled from the spec (4.1): \<^verbatim>\<open>models.Permission.IsPresent\<close> is missing. A held
  permission satisfies a requested one when service and action are equal, the held
  ownership level is at least the requested one, and the held resource is \<^verbatim>\<open>*\<close>, the
  requested resource, or an ancestor of it (the requested resource begins with the held
  one immediately followed by the delimiter \<^verbatim>\<open>/\<close>).
\<close>

definition resource_covers :: "string \<Rightarrow> string \<Rightarrow> bool" where
  "resource_covers h r \<longleftrightarrow>
     h = ''*'' \<or> h = r \<or> take (Suc (length h)) r = h @ ''/''"

definition satisfies :: "Permission \<Rightarrow> Permission \<Rightarrow> bool" where
  "satisfies h r \<longleftrightarrow>
     p_Service h = p_Service r \<and> p_Action h = p_Action r \<and>
     level_rank (p_OwnershipLevel r) \<le> level_rank (p_OwnershipLevel h) \<and>
     resource_covers (p_Resource h) (p_Resource r)"

definition IsPresent :: "Permission \<Rightarrow> Permission list \<Rightarrow> bool" where
  "IsPresent requested held = list_ex (\<lambda>h. satisfies h requested) held"

section \<open>Permission aggregation (use cases)\<close>

definition serviceAccountGetPermissions :: "string \<Rightarrow> Permission list action" where
  "serviceAccountGetPermissions serviceAccountID =
     Permissions_ForServiceAccount serviceAccountID"

definition GetPermissions :: "string \<Rightarrow> Permission list action" where
  "GetPermissions serviceAccountID = serviceAccountGetPermissions serviceAccountID"

text \<open>
  \<^verbatim>\<open>has := make([]bool, len(permissions)); for i := range permissions { has[i] = ... }\<close>
\<close>

function fill_has :: "Permission list \<Rightarrow> Permission list \<Rightarrow> nat \<Rightarrow> bool list \<Rightarrow> bool list" where
  "fill_has saPermissions perms i has =
     (if i < length perms
      then fill_has saPermissions perms (Suc i) (has[i := IsPresent (perms ! i) saPermissions])
      else has)"
  by pat_completeness auto
termination
  by (relation "measure (\<lambda>(sp, perms, i, has). length perms - i)") auto

declare fill_has.simps [simp del]

definition HasPermissions :: "string \<Rightarrow> Permission list \<Rightarrow> bool list action" where
  "HasPermissions serviceAccountID perms =
     and_then (GetPermissions serviceAccountID) (\<lambda>saPermissions.
       ret (fill_has saPermissions perms 0 (replicate (length perms) False)))"

text \<open>
  The clone loop of \<^verbatim>\<open>HasAllOwnerPermissions\<close>. Go slices share their backing array
  with the caller, so the loop threads both arrays: the caller's \<open>perms\<close>, which it only
  reads, and the fresh \<open>psCpy\<close>, which it writes.
\<close>

text \<open>The entries of \<^verbatim>\<open>make([]models.Permission, n)\<close>; the loop overwrites each.\<close>

definition zero_Permission :: Permission where
  "zero_Permission =
     \<lparr>p_RoleID = [], p_Service = [], p_OwnershipLevel = Lender, p_Action = [],
      p_Resource = [], p_Alias = []\<rparr>"

function clone_as_owner ::
  "nat \<Rightarrow> Permission list \<times> Permission list \<Rightarrow> Permission list \<times> Permission list" where
  "clone_as_owner i (perms, psCpy) =
     (if i < length perms
      then clone_as_owner (Suc i)
             (perms, psCpy[i := (perms ! i)\<lparr>p_OwnershipLevel := Owner\<rparr>])
      else (perms, psCpy))"
  by pat_completeness auto
termination
  by (relation "measure (\<lambda>(i, perms, psCpy). length perms - i)") auto

declare clone_as_owner.simps [simp del]

text \<open>\<^verbatim>\<open>for i := range has { if !has[i] { return false, nil } }; return true, nil\<close>\<close>

fun all_has :: "bool list \<Rightarrow> bool" where
  "all_has [] = True"
| "all_has (b # bs) = (if \<not> b then False else all_has bs)"

text \<open>
  The result is paired with the caller's slice as the call leaves it, so that what the
  call does to its argument is part of the model.
\<close>

definition HasAllOwnerPermissions ::
  "string \<Rightarrow> Permission list \<Rightarrow> (bool \<times> Permission list) action" where
  "HasAllOwnerPermissions serviceAccountID perms =
     (case clone_as_owner 0 (perms, replicate (length perms) zero_Permission) of
        (perms', psCpy) \<Rightarrow>
          and_then (HasPermissions serviceAccountID psCpy) (\<lambda>has.
            ret (all_has has, perms')))"

text \<open>
  \<^verbatim>\<open>HasAllOwnerRolesPermissions\<close>: the permissions of every role, appended in order.
\<close>

fun collect_roles_permissions :: "string list \<Rightarrow> Permission list \<Rightarrow> Permission list action" where
  "collect_roles_permissions [] ps = ret ps"
| "collect_roles_permissions (roleID # rolesIDs) ps =
     and_then (Permissions_ForRole roleID) (\<lambda>rps. collect_roles_permissions rolesIDs (ps @ rps))"

definition HasAllOwnerRolesPermissions :: "string \<Rightarrow> string list \<Rightarrow> bool action" where
  "HasAllOwnerRolesPermissions saID rolesIDs =
     and_then (collect_roles_permissions rolesIDs []) (\<lambda>ps.
     and_then (HasAllOwnerPermissions saID ps) (\<lambda>r. ret (fst r)))"

section \<open>Strings\<close>

text \<open>
  Go's \<^verbatim>\<open>strings.Split(s, sep)\<close> for a separator that is not empty (the only use
  here): the pieces between the occurrences of \<open>sep\<close>, found left to right without
  overlap; a string without the separator is its own single piece.
\<close>

function Split_from :: "string \<Rightarrow> string \<Rightarrow> string \<Rightarrow> string list" where
  "Split_from sep acc s =
     (if s = [] then [rev acc]
      else if sep \<noteq> [] \<and> take (length sep) s = sep
      then rev acc # Split_from sep [] (drop (length sep) s)
      else Split_from sep (hd s # acc) (tl s))"
  by pat_completeness auto
termination
  by (relation "measure (\<lambda>(sep, acc, s). length s)") auto

declare Split_from.simps [simp del]

definition Split :: "string \<Rightarrow> string \<Rightarrow> string list" where
  "Split s sep = Split_from sep [] s"

text \<open>
  Go's \<^verbatim>\<open>url.QueryEscape\<close>: letters, digits and \<^verbatim>\<open>-_.~\<close> stay, a space becomes
  \<^verbatim>\<open>+\<close>, every other byte becomes \<^verbatim>\<open>%XX\<close> in upper-case hexadecimal.
\<close>

definition unreserved :: "char \<Rightarrow> bool" where
  "unreserved c \<longleftrightarrow>
     c \<in> set ''abcdefghijklmnopqrstuvwxyzABCDEFGHIJKLMNOPQRSTUVWXYZ0123456789-_.~''"

definition upperhex :: "nat \<Rightarrow> char" where
  "upperhex n = ''0123456789ABCDEF'' ! (n mod 16)"

definition escape_byte :: "char \<Rightarrow> string" where
  "escape_byte c =
     (if unreserved c then [c]
      else if c = CHR '' '' then ''+''
      else [CHR ''%'', upperhex ((of_char c :: nat) div 16), upperhex (of_char c)])"

definition QueryEscape :: "string \<Rightarrow> string" where
  "QueryEscape s = concat (map escape_byte s)"

section \<open>The permission codec\<close>

text \<open>
  Modelled from the spec (4.1 and 6): \<^verbatim>\<open>models.BuildPermission\<close> is missing. It splits
  on \<^verbatim>\<open>::\<close> and fails with a \<open>MalformedPermissionError\<close> unless exactly four
  non-empty fields are produced and the ownership level is \<^verbatim>\<open>Owner\<close> or \<^verbatim>\<open>Lender\<close>.
  \<^verbatim>\<open>BuildPermissions\<close> applies it over a sequence and fails on the first error.
\<close>

definition parse_OwnershipLevel :: "string \<Rightarrow> OwnershipLevel option" where
  "parse_OwnershipLevel s =
     (if s = ''Owner'' then Some Owner else if s = ''Lender'' then Some Lender else None)"

definition BuildPermission :: "string \<Rightarrow> error + Permission" where
  "BuildPermission str =
     (case Split str ''::'' of
        [service, level, act, resource] \<Rightarrow>
          (if service = [] \<or> level = [] \<or> act = [] \<or> resource = []
           then Inl MalformedPermissionError
           else case parse_OwnershipLevel level of
                  None \<Rightarrow> Inl MalformedPermissionError
                | Some l \<Rightarrow>
                    Inr \<lparr>p_RoleID = [], p_Service = service, p_OwnershipLevel = l,
                         p_Action = act, p_Resource = resource, p_Alias = []\<rparr>)
      | _ \<Rightarrow> Inl MalformedPermissionError)"

fun BuildPermissions :: "string list \<Rightarrow> error + Permission list" where
  "BuildPermissions [] = Inr []"
| "BuildPermissions (str # strs) =
     (case BuildPermission str of
        Inl e \<Rightarrow> Inl e
      | Inr p \<Rightarrow> (case BuildPermissions strs of Inl e \<Rightarrow> Inl e | Inr ps \<Rightarrow> Inr (p # ps)))"

section \<open>Identity and delegation lifecycle (use cases)\<close>

definition zero_ServiceAccount :: ServiceAccount where
  "zero_ServiceAccount =
     \<lparr>sa_ID = [], sa_Name = [], sa_KeyID = [], sa_KeySecret = [], sa_Email = [],
      sa_Picture = [], sa_AuthenticationType = zero_AuthenticationType, sa_BaseRoleID = []\<rparr>"

text \<open>
  Modelled from the spec: the two constructors of \<^verbatim>\<open>models\<close> are missing. The OAuth2
  one sets name, email and the authentication type; the key-pair one sets the name and
  the type and builds a random key pair.
\<close>

definition BuildOAuth2ServiceAccount :: "string \<Rightarrow> string \<Rightarrow> ServiceAccount" where
  "BuildOAuth2ServiceAccount name email =
     zero_ServiceAccount\<lparr>sa_Name := name, sa_Email := email, sa_AuthenticationType := OAuth2\<rparr>"

definition BuildKeyPairServiceAccount :: "string \<Rightarrow> ServiceAccount action" where
  "BuildKeyPairServiceAccount name =
     and_then draw (\<lambda>keyID.
     and_then draw (\<lambda>keySecret.
       ret (zero_ServiceAccount\<lparr>sa_Name := name, sa_KeyID := keyID, sa_KeySecret := keySecret,
              sa_AuthenticationType := KeyPair\<rparr>)))"

text \<open>
  \<^verbatim>\<open>createServiceAccount\<close> writes the id and the base role id into the account it is
  given (a pointer); the model returns the account as the call leaves it.
\<close>

definition createServiceAccount :: "ServiceAccount \<Rightarrow> ServiceAccount action" where
  "createServiceAccount sa0 =
     and_then draw (\<lambda>u.
     and_then (Roles_Create \<lparr>r_ID = [], r_Name = ''service-account:'' @ u, r_IsBaseRole = True\<rparr>)
       (\<lambda>r.
     and_then (ServiceAccounts_Create (sa0\<lparr>sa_ID := u, sa_BaseRoleID := r_ID r\<rparr>)) (\<lambda>_.
     and_then (Roles_Bind \<lparr>rb_ServiceAccountID = u, rb_RoleID = r_ID r\<rparr>) (\<lambda>_.
       ret (sa0\<lparr>sa_ID := u, sa_BaseRoleID := r_ID r\<rparr>)))))"

definition Create :: "ServiceAccount \<Rightarrow> ServiceAccount action" where
  "Create sa = WithPGTx (createServiceAccount sa)"

text \<open>
  The callback \<^verbatim>\<open>CreateWithNested\<close> hands to the transaction. With an authentication
  type that is neither OAuth2 nor KeyPair the pointer \<^verbatim>\<open>sa\<close> stays nil and
  \<^verbatim>\<open>sa.ID\<close> panics.
\<close>

definition CreateWithNested_tx :: "ServiceAccountWithNested \<Rightarrow> unit action" where
  "CreateWithNested_tx sawn =
     and_then
       (if sawn_AuthenticationType sawn = OAuth2
        then createServiceAccount (BuildOAuth2ServiceAccount (sawn_Name sawn) (sawn_Email sawn))
        else if sawn_AuthenticationType sawn = KeyPair
        then and_then (BuildKeyPairServiceAccount (sawn_Name sawn)) createServiceAccount
        else throw Panic)
       (\<lambda>sa.
     and_then
       (for_each (sawn_RolesIDs sawn) (\<lambda>roleID.
          Roles_Bind \<lparr>rb_ServiceAccountID = sa_ID sa, rb_RoleID = roleID\<rparr>)) (\<lambda>_.
       for_each (sawn_Permissions sawn) (\<lambda>p.
          Permissions_Create (p\<lparr>p_RoleID := sa_BaseRoleID sa\<rparr>))))"

definition CreateWithNested :: "ServiceAccountWithNested \<Rightarrow> unit action" where
  "CreateWithNested sawn = WithPGTx (CreateWithNested_tx sawn)"

definition UpdateWithNested_tx :: "ServiceAccountWithNested \<Rightarrow> unit action" where
  "UpdateWithNested_tx sawn =
     and_then (ServiceAccounts_Get (sawn_ID sawn)) (\<lambda>sa0.
     and_then (ServiceAccounts_Update (sa0\<lparr>sa_Name := sawn_Name sawn, sa_Email := sawn_Name sawn\<rparr>))
       (\<lambda>_.
     and_then (ServiceAccounts_DropBindings (sawn_ID sawn)) (\<lambda>_.
     and_then
       (for_each (sawn_RolesIDs sawn) (\<lambda>roleID.
          if roleID = sa_BaseRoleID sa0 then ret ()
          else Roles_Bind \<lparr>rb_ServiceAccountID = sa_ID sa0, rb_RoleID = roleID\<rparr>)) (\<lambda>_.
     and_then (Roles_DropPermissions (sa_BaseRoleID sa0)) (\<lambda>_.
       for_each (sawn_Permissions sawn) (\<lambda>p.
          Permissions_Create (p\<lparr>p_RoleID := sa_BaseRoleID sa0\<rparr>)))))))"

definition UpdateWithNested :: "ServiceAccountWithNested \<Rightarrow> unit action" where
  "UpdateWithNested sawn = WithPGTx (UpdateWithNested_tx sawn)"

section \<open>Authentication (use cases)\<close>

record AuthResult =
  ar_Email :: string
  ar_AccessToken :: string
  ar_Picture :: string

record AccessTokenAuth =
  ata_ServiceAccountID :: string
  ata_AccessToken :: string
  ata_Email :: string

text \<open>The external OAuth2 provider: what \<^verbatim>\<open>Authenticate\<close> answers for a token.\<close>

type_synonym Provider = "string \<Rightarrow> error + AuthResult"

definition AuthenticateAccessToken :: "Provider \<Rightarrow> string \<Rightarrow> AccessTokenAuth action" where
  "AuthenticateAccessToken provider accessToken w =
     (case provider accessToken of
        Inl e \<Rightarrow> (Inl e, w)
      | Inr authResult \<Rightarrow>
          (case ServiceAccounts_ForEmail (ar_Email authResult) w of
             (Inl e, w') \<Rightarrow>
               (if e = EntityNotFoundError
                then and_then
                       (Create (zero_ServiceAccount\<lparr>sa_Name := ar_Email authResult,
                          sa_Email := ar_Email authResult, sa_Picture := ar_Picture authResult\<rparr>))
                       (\<lambda>sa. ret \<lparr>ata_ServiceAccountID = sa_ID sa,
                                   ata_AccessToken = ar_AccessToken authResult,
                                   ata_Email = ar_Email authResult\<rparr>) w'
                else (Inl e, w'))
           | (Inr sa, w') \<Rightarrow>
               and_then
                 (if ar_Picture authResult \<noteq> [] \<and> ar_Picture authResult \<noteq> sa_Picture sa
                  then ServiceAccounts_Update (sa\<lparr>sa_Picture := ar_Picture authResult\<rparr>)
                  else ret ())
                 (\<lambda>_. ret \<lparr>ata_ServiceAccountID = sa_ID sa,
                            ata_AccessToken = ar_AccessToken authResult,
                            ata_Email = ar_Email authResult\<rparr>) w'))"

text \<open>
  The middleware reads a result with the fields \<^verbatim>\<open>ServiceAccountID\<close> and \<^verbatim>\<open>Name\<close>;
  the use case returns the id of the account \<^verbatim>\<open>ForKeyPair\<close> finds. The model returns
  both, read from that account.
\<close>

record AccessKeyPairAuth =
  akp_ServiceAccountID :: string
  akp_Name :: string

definition AuthenticateKeyPair :: "string \<Rightarrow> string \<Rightarrow> AccessKeyPairAuth action" where
  "AuthenticateKeyPair keyID keySecret =
     and_then (ServiceAccounts_ForKeyPair keyID keySecret) (\<lambda>sa.
       ret \<lparr>akp_ServiceAccountID = sa_ID sa, akp_Name = sa_Name sa\<rparr>)"

section \<open>HTTP handlers\<close>

text \<open>
  What a handler does with a request: it panics, it writes a status (with the response
  headers set so far) and returns, or it calls the next handler (with the response
  headers set so far and, when the request context was extended, the service account id
  stored in it).
\<close>

type_synonym Header = "(string \<times> string) list"

datatype handler_result =
    Panicked
  | Responded int Header
  | CalledNext Header "string option"

definition StatusOK :: int where "StatusOK = 200"
definition StatusCreated :: int where "StatusCreated = 201"
definition StatusUnauthorized :: int where "StatusUnauthorized = 401"
definition StatusForbidden :: int where "StatusForbidden = 403"
definition StatusUnprocessableEntity :: int where "StatusUnprocessableEntity = 422"
definition StatusInternalServerError :: int where "StatusInternalServerError = 500"

text \<open>
  Modelled from the spec (section 7): \<^verbatim>\<open>UserDoesntHaveAllPermissionsError.StatusCode()\<close>
  of the missing \<^verbatim>\<open>errors\<close> package is the 403-class status.
\<close>

definition UserDoesntHaveAllPermissionsError_StatusCode :: int where
  "UserDoesntHaveAllPermissionsError_StatusCode = StatusForbidden"

text \<open>
  A request to the service-account handlers: the service account id the authentication
  middleware stored in the context (if any), the \<^verbatim>\<open>id\<close> path variable, and the body
  as \<^verbatim>\<open>json.Unmarshal\<close> decodes it (\<open>None\<close>: the body cannot be read or decoded).
\<close>

record SARequest =
  sar_ctx_serviceAccountID :: "string option"
  sar_vars_id :: string
  sar_body :: "ServiceAccountWithNested option"

definition getServiceAccountID :: "string option \<Rightarrow> string \<times> bool" where
  "getServiceAccountID v = (case v of None \<Rightarrow> ([], False) | Some vv \<Rightarrow> (vv, True))"

definition Validate :: "ServiceAccountWithNested \<Rightarrow> (string \<times> string) list" where
  "Validate sawn =
     (if sawn_Name sawn = [] then [(''name'', ''required'')] else []) @
     (if \<not> Valid (sawn_AuthenticationType sawn)
      then [(''authenticatonType'', ''must be oauth2 or keypair'')] else []) @
     (if sawn_AuthenticationType sawn = OAuth2 \<and> sawn_Email sawn = []
      then [(''email'', ''required'')] else [])"

text \<open>
  \<^verbatim>\<open>for i := range sawn.PermissionsStrings { if alias, ok := ...; ok { sawn.Permissions[i].Alias = alias } }\<close>
  (the two slices have the same length when \<^verbatim>\<open>BuildPermissions\<close> succeeds).
\<close>

definition apply_aliases ::
  "(string \<times> string) list \<Rightarrow> string list \<Rightarrow> Permission list \<Rightarrow> Permission list" where
  "apply_aliases aliases strs ps =
     map (\<lambda>(str, p). case map_of aliases str of None \<Rightarrow> p | Some alias \<Rightarrow> p\<lparr>p_Alias := alias\<rparr>)
       (zip strs ps)"

definition processServiceAccountWithNestedFromReq ::
  "SARequest \<Rightarrow> ServiceAccountWithNested action" where
  "processServiceAccountWithNestedFromReq r =
     (case sar_body r of
        None \<Rightarrow> throw BodyError
      | Some sawn \<Rightarrow>
          and_then
            (HasAllOwnerRolesPermissions (fst (getServiceAccountID (sar_ctx_serviceAccountID r)))
               (sawn_RolesIDs sawn)) (\<lambda>hasAllOwnerRolesPermissions.
          if \<not> hasAllOwnerRolesPermissions then throw UserDoesntHaveAllPermissionsError
          else case BuildPermissions (sawn_PermissionsStrings sawn) of
                 Inl e \<Rightarrow> throw e
               | Inr ps \<Rightarrow>
                   and_then
                     (HasAllOwnerPermissions
                        (fst (getServiceAccountID (sar_ctx_serviceAccountID r)))
                        (apply_aliases (sawn_PermissionsAliases sawn)
                           (sawn_PermissionsStrings sawn) ps)) (\<lambda>has.
                   if \<not> fst has then throw UserDoesntHaveAllPermissionsError
                   else ret (sawn\<lparr>sawn_Permissions := snd has\<rparr>))))"

text \<open>A panic is not an error value: it leaves the handler as a panic.\<close>

definition serviceAccountsCreateHandler :: "SARequest \<Rightarrow> World \<Rightarrow> handler_result \<times> World" where
  "serviceAccountsCreateHandler r w =
     (case processServiceAccountWithNestedFromReq r w of
        (Inl err, w') \<Rightarrow>
          (if err = Panic then (Panicked, w')
           else if err = UserDoesntHaveAllPermissionsError
           then (Responded UserDoesntHaveAllPermissionsError_StatusCode [], w')
           else (Responded StatusInternalServerError [], w'))
      | (Inr sawn, w') \<Rightarrow>
          (if Validate sawn \<noteq> [] then (Responded StatusUnprocessableEntity [], w')
           else case CreateWithNested (sawn\<lparr>sawn_ID := sar_vars_id r\<rparr>) w' of
                  (Inl err, w'') \<Rightarrow>
                    (if err = Panic then (Panicked, w'')
                     else (Responded StatusInternalServerError [], w''))
                | (Inr _, w'') \<Rightarrow> (Responded StatusCreated [], w'')))"

section \<open>The authentication middleware\<close>

text \<open>
  \<open>authorization\<close> is what \<^verbatim>\<open>r.Header.Get("authorization")\<close> returns: the header's
  value, or the empty string when the request has none. \<^verbatim>\<open>keyPair[1]\<close> is out of
  range, and panics, when the credential has no colon.
\<close>

definition authMiddleware :: "Provider \<Rightarrow> string \<Rightarrow> World \<Rightarrow> handler_result \<times> World" where
  "authMiddleware provider authorization w =
     (let parts = Split authorization '' '' in
      if authorization = [] \<or> length parts \<noteq> 2 then (Responded StatusUnauthorized [], w)
      else if parts ! 0 = ''KeyPair'' then
        (let keyPair = Split (parts ! 1) '':'' in
         if length keyPair < 2 then (Panicked, w)
         else case AuthenticateKeyPair (keyPair ! 0) (keyPair ! 1) w of
                (Inl err, w') \<Rightarrow>
                  (if err = Panic then (Panicked, w')
                   else (Responded StatusInternalServerError [], w'))
              | (Inr accessKeyPairAuth, w') \<Rightarrow>
                  (CalledNext [(''x-service-account-name'', akp_Name accessKeyPairAuth)]
                     (Some (akp_ServiceAccountID accessKeyPairAuth)), w'))
      else if parts ! 0 = ''Bearer'' then
        (case AuthenticateAccessToken provider (parts ! 1) w of
           (Inl err, w') \<Rightarrow>
             (if err = Panic then (Panicked, w')
              else if err = EntityNotFoundError then (Responded StatusUnauthorized [], w')
              else (Responded StatusInternalServerError [], w'))
         | (Inr accessTokenAuth, w') \<Rightarrow>
             (CalledNext
                ([(''x-email'', ata_Email accessTokenAuth)] @
                 (if ata_AccessToken accessTokenAuth \<noteq> parts ! 1
                  then [(''x-access-token'', ata_AccessToken accessTokenAuth)] else []))
                (Some (ata_ServiceAccountID accessTokenAuth)), w'))
      else (Responded StatusUnauthorized [], w))"

section \<open>The embeddable permission-check middleware\<close>

record Request =
  req_Authorization :: string
  req_Path :: string

record permission =
  perm_Service :: string
  perm_OwnershipLevel :: string
  perm_Action :: string
  perm_Resource :: "Request \<Rightarrow> string"

record Middleware =
  m_permission :: permission
  m_iamURL :: string
  m_enabled :: bool

record auth =
  auth_code :: int
  auth_token :: string
  auth_email :: string

text \<open>
  The request \<^verbatim>\<open>getAuthStatus\<close> builds and the response \<^verbatim>\<open>client.Do\<close> returns.
  \<open>Client\<close> is the network between the middleware and the decision endpoint:
  \<^verbatim>\<open>http.NewRequest\<close> followed by \<^verbatim>\<open>client.Do\<close>, either of which may fail.
\<close>

record OutboundRequest =
  out_Method :: string
  out_URL :: string
  out_Authorization :: string

record HTTPResponse =
  res_StatusCode :: int
  res_Header :: Header

type_synonym Client = "OutboundRequest \<Rightarrow> error + HTTPResponse"

definition Header_Get :: "Header \<Rightarrow> string \<Rightarrow> string" where
  "Header_Get h k = (case map_of h k of None \<Rightarrow> [] | Some v \<Rightarrow> v)"

definition build :: "permission \<Rightarrow> Request \<Rightarrow> string" where
  "build p r =
     perm_Service p @ ''::'' @ perm_OwnershipLevel p @ ''::'' @ perm_Action p @ ''::'' @
     perm_Resource p r"

definition accessTokenFromHeader :: "Request \<Rightarrow> string" where
  "accessTokenFromHeader r =
     (let parts = Split (req_Authorization r) '' '' in
      if length parts < 1 then [] else parts ! 0)"

definition auth_request :: "Middleware \<Rightarrow> string \<Rightarrow> string \<Rightarrow> OutboundRequest" where
  "auth_request m perm token =
     \<lparr>out_Method = ''GET'',
      out_URL = m_iamURL m @ ''/permissions/has?permission='' @ QueryEscape perm,
      out_Authorization = token\<rparr>"

definition getAuthStatus :: "Middleware \<Rightarrow> Client \<Rightarrow> string \<Rightarrow> string \<Rightarrow> error + auth" where
  "getAuthStatus m client perm token =
     (case client (auth_request m perm token) of
        Inl err \<Rightarrow> Inl err
      | Inr res \<Rightarrow>
          Inr \<lparr>auth_code = res_StatusCode res,
               auth_token = Header_Get (res_Header res) ''x-access-token'',
               auth_email = Header_Get (res_Header res) ''x-email''\<rparr>)"

text \<open>
  \<^verbatim>\<open>ServeHTTP\<close> returns the requests handed to the client together with what the
  handler did.
\<close>

definition ServeHTTP :: "Middleware \<Rightarrow> Client \<Rightarrow> Request \<Rightarrow> OutboundRequest list \<times> handler_result" where
  "ServeHTTP m client r =
     (if \<not> m_enabled m then ([], CalledNext [] None)
      else let token = accessTokenFromHeader r in
        if token = [] then ([], Responded StatusUnauthorized [])
        else case getAuthStatus m client (build (m_permission m) r) token of
               Inl err \<Rightarrow>
                 ([auth_request m (build (m_permission m) r) token],
                  Responded StatusInternalServerError [])
             | Inr status \<Rightarrow>
                 if auth_code status \<noteq> StatusOK
                 then ([auth_request m (build (m_permission m) r) token],
                       Responded (auth_code status) [])
                 else ([auth_request m (build (m_permission m) r) token],
                       CalledNext
                         ((if auth_token status \<noteq> [] \<and> auth_token status \<noteq> token
                           then [(''x-access-token'', auth_token status)] else []) @
                          (if auth_email status \<noteq> [] then [(''x-email'', auth_email status)]
                           else []))
                         None))"

text \<open>
  The configuration (viper): a value set explicitly wins over the default. \<^verbatim>\<open>GetBool\<close>
  and \<^verbatim>\<open>GetString\<close> return the value when it has the kind asked for; the conversions
  viper applies to a value of another kind are not modelled (the zero value is
  returned).
\<close>

datatype config_value = CBool bool | CString string | CInt int | CDuration int

record Viper =
  v_set :: "(string \<times> config_value) list"
  v_defaults :: "(string \<times> config_value) list"

definition SetDefault :: "string \<Rightarrow> config_value \<Rightarrow> Viper \<Rightarrow> Viper" where
  "SetDefault k v c = c\<lparr>v_defaults := (k, v) # v_defaults c\<rparr>"

definition Viper_Get :: "Viper \<Rightarrow> string \<Rightarrow> config_value option" where
  "Viper_Get c k = (case map_of (v_set c) k of Some v \<Rightarrow> Some v | None \<Rightarrow> map_of (v_defaults c) k)"

definition GetBool :: "Viper \<Rightarrow> string \<Rightarrow> bool" where
  "GetBool c k = (case Viper_Get c k of Some (CBool b) \<Rightarrow> b | _ \<Rightarrow> False)"

definition GetString :: "Viper \<Rightarrow> string \<Rightarrow> string" where
  "GetString c k = (case Viper_Get c k of Some (CString s) \<Rightarrow> s | _ \<Rightarrow> [])"

definition DefaultMaxIdleConnsPerHost :: int where
  "DefaultMaxIdleConnsPerHost = 2"

definition configure :: "Viper \<Rightarrow> Viper" where
  "configure config =
     SetDefault ''william.permission.service'' (CString ''service'')
     (SetDefault ''william.enabled'' (CBool False)
     (SetDefault ''william.url'' (CString ''http://localhost:4040'')
     (SetDefault ''william.http.timeout'' (CDuration 500000000)
     (SetDefault ''william.http.maxIdleConns'' (CInt 100)
     (SetDefault ''william.http.maxIdleConnsPerHost'' (CInt DefaultMaxIdleConnsPerHost)
        config)))))"

definition NewMiddleware ::
  "Viper \<Rightarrow> string \<Rightarrow> string \<Rightarrow> (Request \<Rightarrow> string) \<Rightarrow> Middleware" where
  "NewMiddleware config ownershipLevel act resource =
     \<lparr>m_permission =
        \<lparr>perm_Service = GetString (configure config) ''william.permission.service'',
         perm_OwnershipLevel = ownershipLevel,
         perm_Action = act,
         perm_Resource = resource\<rparr>,
      m_iamURL = GetString (configure config) ''william.url'',
      m_enabled = GetBool (configure config) ''william.enabled''\<rparr>"

section \<open>Derived notions\<close>

text \<open>
  What the authorization of a create or update request asks of the acting account: a
  permission is held at Owner level when, with its level replaced by \<open>Owner\<close>, it is
  present in the account's aggregated permissions; the permissions of the roles to bind
  are those attached to each of them.
\<close>

definition holds_as_owner :: "Store \<Rightarrow> string \<Rightarrow> Permission \<Rightarrow> bool" where
  "holds_as_owner s saID p =
     IsPresent (p\<lparr>p_OwnershipLevel := Owner\<rparr>) (permissions_for_service_account s saID)"

definition roles_permissions :: "Store \<Rightarrow> string list \<Rightarrow> Permission list" where
  "roles_permissions s rolesIDs = concat (map (permissions_for_role s) rolesIDs)"

text \<open>
  The database a successful \<^verbatim>\<open>UpdateWithNested\<close> leaves, given the account
  \<^verbatim>\<open>ServiceAccounts.Get\<close> found.
\<close>

definition updated_store :: "ServiceAccountWithNested \<Rightarrow> ServiceAccount \<Rightarrow> Store \<Rightarrow> Store" where
  "updated_store sawn sa0 s =
     (let s1 = s\<lparr>service_accounts :=
                  map (\<lambda>x. if sa_ID x = sa_ID sa0
                            then sa0\<lparr>sa_Name := sawn_Name sawn, sa_Email := sawn_Name sawn\<rparr> else x)
                    (service_accounts s)\<rparr>
      in s1\<lparr>role_bindings :=
               filter (\<lambda>b. rb_ServiceAccountID b \<noteq> sawn_ID sawn \<or> is_base_binding s1 b)
                 (role_bindings s) @
               map (\<lambda>roleID. \<lparr>rb_ServiceAccountID = sa_ID sa0, rb_RoleID = roleID\<rparr>)
                 (filter (\<lambda>roleID. roleID \<noteq> sa_BaseRoleID sa0) (sawn_RolesIDs sawn)),
             permissions :=
               filter (\<lambda>p. p_RoleID p \<noteq> sa_BaseRoleID sa0) (permissions s) @
               map (\<lambda>p. p\<lparr>p_RoleID := sa_BaseRoleID sa0\<rparr>) (sawn_Permissions sawn)\<rparr>)"

section \<open>Example worlds and requests\<close>

definition mk_permission :: "string \<Rightarrow> string \<Rightarrow> OwnershipLevel \<Rightarrow> string \<Rightarrow> string \<Rightarrow> Permission" where
  "mk_permission roleID service level act resource =
     \<lparr>p_RoleID = roleID, p_Service = service, p_OwnershipLevel = level, p_Action = act,
      p_Resource = resource, p_Alias = []\<rparr>"

definition account_a1 :: ServiceAccount where
  "account_a1 =
     \<lparr>sa_ID = ''a1'', sa_Name = ''alice'', sa_KeyID = ''k1'', sa_KeySecret = ''s1'',
      sa_Email = [], sa_Picture = [], sa_AuthenticationType = KeyPair, sa_BaseRoleID = ''b1''\<rparr>"

text \<open>One account, bound to its base role, which holds the given permissions.\<close>

definition world_holding :: "Permission list \<Rightarrow> World" where
  "world_holding ps =
     \<lparr>db = \<lparr>service_accounts = [account_a1],
             roles = [\<lparr>r_ID = ''b1'', r_Name = ''service-account:a1'', r_IsBaseRole = True\<rparr>],
             role_bindings = [\<lparr>rb_ServiceAccountID = ''a1'', rb_RoleID = ''b1''\<rparr>],
             permissions = ps\<rparr>,
      entropy = [''u1'', ''u2'', ''u3'', ''u4''],
      calls_left = None\<rparr>"

definition owner_world :: World where
  "owner_world = world_holding [mk_permission ''b1'' ''svc'' Owner ''act'' ''res'']"

definition lender_world :: World where
  "lender_world = world_holding [mk_permission ''b1'' ''svc'' Lender ''act'' ''res'']"

definition enabled_middleware :: Middleware where
  "enabled_middleware =
     \<lparr>m_permission = \<lparr>perm_Service = ''svc'', perm_OwnershipLevel = ''Owner'',
                       perm_Action = ''act'', perm_Resource = req_Path\<rparr>,
      m_iamURL = ''http://iam'', m_enabled = True\<rparr>"

definition iam_client :: Client where
  "iam_client out =
     (if out_Authorization out = ''tok123''
      then Inr \<lparr>res_StatusCode = 200,
                res_Header = [(''x-email'', ''a@x.com''), (''x-access-token'', ''tok456'')]\<rparr>
      else Inr \<lparr>res_StatusCode = 401, res_Header = []\<rparr>)"

definition bearer_request :: Request where
  "bearer_request = \<lparr>req_Authorization = ''Bearer abc'', req_Path = ''res/1''\<rparr>"

definition no_header_request :: Request where
  "no_header_request = \<lparr>req_Authorization = [], req_Path = ''res/1''\<rparr>"

definition raw_token_request :: Request where
  "raw_token_request = \<lparr>req_Authorization = ''tok123'', req_Path = ''res/1''\<rparr>"

definition rename_request :: ServiceAccountWithNested where
  "rename_request =
     \<lparr>sawn_ID = ''a1'', sawn_Name = ''bob'', sawn_Email = ''bob@x.com'', sawn_Picture = [],
      sawn_PermissionsStrings = [], sawn_PermissionsAliases = [], sawn_Permissions = [],
      sawn_RolesIDs = [], sawn_AuthenticationType = KeyPair\<rparr>"



definition bound_world :: World where
  "bound_world =
     \<lparr>db = \<lparr>service_accounts = [account_a1],
             roles = [\<lparr>r_ID = ''b1'', r_Name = ''service-account:a1'', r_IsBaseRole = True\<rparr>,
                      \<lparr>r_ID = ''R1'', r_Name = ''one'', r_IsBaseRole = False\<rparr>,
                      \<lparr>r_ID = ''R2'', r_Name = ''two'', r_IsBaseRole = False\<rparr>,
                      \<lparr>r_ID = ''R3'', r_Name = ''three'', r_IsBaseRole = False\<rparr>],
             role_bindings = [\<lparr>rb_ServiceAccountID = ''a1'', rb_RoleID = ''b1''\<rparr>,
                              \<lparr>rb_ServiceAccountID = ''a1'', rb_RoleID = ''R1''\<rparr>,
                              \<lparr>rb_ServiceAccountID = ''a1'', rb_RoleID = ''R2''\<rparr>],
             permissions = []\<rparr>,
      entropy = [], calls_left = None\<rparr>"


definition rebind_request :: ServiceAccountWithNested where
  "rebind_request =
     \<lparr>sawn_ID = ''a1'', sawn_Name = ''alice'', sawn_Email = [], sawn_Picture = [],
      sawn_PermissionsStrings = [], sawn_PermissionsAliases = [], sawn_Permissions = [],
      sawn_RolesIDs = [''R2'', ''R3'', ''b1''], sawn_AuthenticationType = KeyPair\<rparr>"

definition escalation_request :: SARequest where
  "escalation_request =
     \<lparr>sar_ctx_serviceAccountID = Some ''a1'',
      sar_vars_id = [],
      sar_body = Some
        \<lparr>sawn_ID = [], sawn_Name = ''mallory'', sawn_Email = [], sawn_Picture = [],
         sawn_PermissionsStrings = [''svc::Owner::act::res''], sawn_PermissionsAliases = [],
         sawn_Permissions = [], sawn_RolesIDs = [], sawn_AuthenticationType = KeyPair\<rparr>\<rparr>"

definition first_login_provider :: Provider where
  "first_login_provider accessToken =
     Inr \<lparr>ar_Email = ''new@x.com'', ar_AccessToken = accessToken, ar_Picture = ''pic''\<rparr>"

section \<open>The Owner-level check\<close>

lemma clone_as_owner_from:
  "i \<le> length perms \<Longrightarrow> length psCpy = length perms \<Longrightarrow>
   clone_as_owner i (perms, psCpy) =
     (perms, take i psCpy @ map (\<lambda>p. p\<lparr>p_OwnershipLevel := Owner\<rparr>) (drop i perms))"
proof (induction "length perms - i" arbitrary: i psCpy)
  case 0
  then show ?case by (subst clone_as_owner.simps) simp
next
  case (Suc n)
  then have lt: "i < length perms" by simp
  have d: "drop i perms = perms ! i # drop (Suc i) perms"
    using lt by (simp add: Cons_nth_drop_Suc)
  have "clone_as_owner i (perms, psCpy) =
        clone_as_owner (Suc i) (perms, psCpy[i := (perms ! i)\<lparr>p_OwnershipLevel := Owner\<rparr>])"
    using lt by (subst clone_as_owner.simps) simp
  also have "\<dots> =
      (perms, take (Suc i) (psCpy[i := (perms ! i)\<lparr>p_OwnershipLevel := Owner\<rparr>])
                @ map (\<lambda>p. p\<lparr>p_OwnershipLevel := Owner\<rparr>) (drop (Suc i) perms))"
    using lt Suc.prems Suc.hyps(2) by (intro Suc.hyps(1)) auto
  finally show ?case
    using lt Suc.prems d by (simp add: take_Suc_conv_app_nth)
qed

lemma clone_as_owner_all:
  "clone_as_owner 0 (perms, replicate (length perms) zero_Permission) =
     (perms, map (\<lambda>p. p\<lparr>p_OwnershipLevel := Owner\<rparr>) perms)"
  by (simp add: clone_as_owner_from)

lemma fill_has_from:
  "i \<le> length perms \<Longrightarrow> length has = length perms \<Longrightarrow>
   fill_has held perms i has = take i has @ map (\<lambda>p. IsPresent p held) (drop i perms)"
proof (induction held perms i has rule: fill_has.induct)
  case (1 held perms i has)
  show ?case
  proof (cases "i < length perms")
    case True
    have d: "drop i perms = perms ! i # drop (Suc i) perms"
      using True by (simp add: Cons_nth_drop_Suc)
    have "fill_has held perms i has =
          fill_has held perms (Suc i) (has[i := IsPresent (perms ! i) held])"
      using True by (subst fill_has.simps) simp
    also have "\<dots> = take (Suc i) (has[i := IsPresent (perms ! i) held])
                      @ map (\<lambda>p. IsPresent p held) (drop (Suc i) perms)"
      using True "1.prems" by (intro "1.IH") auto
    finally show ?thesis
      using True "1.prems" d by (simp add: take_Suc_conv_app_nth)
  next
    case False
    then show ?thesis using "1.prems" by (subst fill_has.simps) simp
  qed
qed

lemma all_has_iff: "all_has bs \<longleftrightarrow> (\<forall>b\<in>set bs. b)"
  by (induction bs) auto

lemma HasPermissions_run:
  "HasPermissions saID perms w =
     (case GetPermissions saID w of
        (Inl e, w') \<Rightarrow> (Inl e, w')
      | (Inr held, w') \<Rightarrow> (Inr (map (\<lambda>p. IsPresent p held) perms), w'))"
  by (cases "GetPermissions saID w" rule: prod.exhaust; cases "fst (GetPermissions saID w)")
     (simp_all add: HasPermissions_def and_then_def ret_def fill_has_from)

lemma HasAllOwnerPermissions_run:
  "HasAllOwnerPermissions saID perms w =
     (case GetPermissions saID w of
        (Inl e, w') \<Rightarrow> (Inl e, w')
      | (Inr held, w') \<Rightarrow>
          (Inr (list_all (\<lambda>p. IsPresent (p\<lparr>p_OwnershipLevel := Owner\<rparr>) held) perms, perms), w'))"
proof -
  obtain r w' where g: "GetPermissions saID w = (r, w')"
    by (cases "GetPermissions saID w")
  show ?thesis
  proof (cases r)
    case (Inl e)
    then show ?thesis
      by (simp add: HasAllOwnerPermissions_def clone_as_owner_all and_then_def
            HasPermissions_run g)
  next
    case (Inr held)
    then show ?thesis
      by (simp add: HasAllOwnerPermissions_def clone_as_owner_all and_then_def
            HasPermissions_run g ret_def all_has_iff list_all_iff)
  qed
qed

lemma GetPermissions_owner_world:
  "GetPermissions ''a1'' owner_world =
     (Inr [mk_permission ''b1'' ''svc'' Owner ''act'' ''res''], owner_world)"
  by code_simp

text \<open>
  C2. \<^verbatim>\<open>HasAllOwnerPermissions\<close> fails exactly when reading the account's permissions
  fails; otherwise it returns true iff every requested permission, with its ownership
  level replaced by \<open>Owner\<close>, is present (\<open>IsPresent\<close>) in the account's aggregated
  permission set, and it leaves the caller's list as it was.
\<close>

theorem HasAllOwnerPermissions_spec:
  "HasAllOwnerPermissions serviceAccountID perms w =
     (case GetPermissions serviceAccountID w of
        (Inl e, w') \<Rightarrow> (Inl e, w')
      | (Inr held, w') \<Rightarrow>
          (Inr ((\<forall>p\<in>set perms. IsPresent (p\<lparr>p_OwnershipLevel := Owner\<rparr>) held), perms), w'))"
  by (simp add: HasAllOwnerPermissions_run list_all_iff split: prod.splits sum.splits)

theorem HasAllOwnerPermissions_spec_witness:
  "HasAllOwnerPermissions ''a1'' [mk_permission [] ''svc'' Lender ''act'' ''res/sub''] owner_world =
     (Inr (True, [mk_permission [] ''svc'' Lender ''act'' ''res/sub'']), owner_world) \<and>
   HasAllOwnerPermissions ''a1'' [mk_permission [] ''svc'' Lender ''act'' ''other''] owner_world =
     (Inr (False, [mk_permission [] ''svc'' Lender ''act'' ''other'']), owner_world)"
  using HasAllOwnerPermissions_spec [of "''a1''" "[mk_permission [] ''svc'' Lender ''act'' ''res/sub'']" owner_world]
    HasAllOwnerPermissions_spec [of "''a1''" "[mk_permission [] ''svc'' Lender ''act'' ''other'']" owner_world]
  by (simp add: GetPermissions_owner_world IsPresent_def satisfies_def resource_covers_def
        mk_permission_def)

section \<open>The embeddable middleware\<close>

text \<open>
  C10. A middleware whose \<open>enabled\<close> flag is false calls the next handler for every
  request, hands no request to the client and sets no header, whatever the request's
  \<^verbatim>\<open>Authorization\<close> header is; and the flag is false unless \<^verbatim>\<open>william.enabled\<close> is
  set explicitly.
\<close>

theorem ServeHTTP_disabled_bypass:
  "(\<not> m_enabled m \<longrightarrow> ServeHTTP m client r = ([], CalledNext [] None)) \<and>
   (map_of (v_set config) ''william.enabled'' = None \<longrightarrow>
      \<not> m_enabled (NewMiddleware config ownershipLevel act resource))"
  by (simp add: ServeHTTP_def NewMiddleware_def GetBool_def Viper_Get_def configure_def
        SetDefault_def)

theorem ServeHTTP_disabled_bypass_witness:
  "ServeHTTP (NewMiddleware \<lparr>v_set = [], v_defaults = []\<rparr> ''Owner'' ''act'' req_Path)
     iam_client bearer_request = ([], CalledNext [] None)"
  using ServeHTTP_disabled_bypass
      [of "NewMiddleware \<lparr>v_set = [], v_defaults = []\<rparr> ''Owner'' ''act'' req_Path"
      iam_client bearer_request "\<lparr>v_set = [], v_defaults = []\<rparr>" "''Owner''" "''act''" req_Path]
  by simp

lemma Split_from_single_hd:
  "Split_from [c] acc s = (rev acc @ takeWhile (\<lambda>x. x \<noteq> c) s) # tl (Split_from [c] acc s)"
proof (induction s arbitrary: acc)
  case Nil
  show ?case by (subst (1 2) Split_from.simps) simp
next
  case (Cons x xs)
  show ?case
  proof (cases "x = c")
    case True
    then show ?thesis by (subst (1 2) Split_from.simps) simp
  next
    case False
    then show ?thesis using Cons [of "x # acc"] by (subst (1 2) Split_from.simps) simp
  qed
qed

lemma accessTokenFromHeader_first_field:
  "accessTokenFromHeader r = takeWhile (\<lambda>c. c \<noteq> CHR '' '') (req_Authorization r)"
proof -
  have "Split (req_Authorization r) '' '' =
        takeWhile (\<lambda>c. c \<noteq> CHR '' '') (req_Authorization r) #
        tl (Split (req_Authorization r) '' '')"
    unfolding Split_def using Split_from_single_hd [of "CHR '' ''" "[]" "req_Authorization r"]
    by simp
  then obtain rest where
    "Split (req_Authorization r) '' '' = takeWhile (\<lambda>c. c \<noteq> CHR '' '') (req_Authorization r) # rest"
    by blast
  then show ?thesis by (simp add: accessTokenFromHeader_def)
qed

lemma accessTokenFromHeader_no_space:
  "CHR '' '' \<notin> set (req_Authorization r) \<Longrightarrow> accessTokenFromHeader r = req_Authorization r"
  by (auto simp add: accessTokenFromHeader_first_field takeWhile_eq_all_conv)


text \<open>
  C9 (as amended). An enabled middleware forwards the token it extracts from the
  caller's \<^verbatim>\<open>Authorization\<close> header; for a header without a space that is the header
  itself. When the token is empty it answers 401 and hands no request to the client.
  Otherwise it hands over exactly one
  \<^verbatim>\<open>GET <iamURL>/permissions/has?permission=<escaped permission>\<close> with the token as
  \<^verbatim>\<open>Authorization\<close>; it answers 500 when the call fails, the returned status when that
  is not 200, and calls the next handler exactly when the status is 200, then echoing
  \<^verbatim>\<open>x-access-token\<close> (when not empty and different from the forwarded token) and
  \<^verbatim>\<open>x-email\<close> (when not empty).
\<close>

theorem ServeHTTP_enabled_spec:
  assumes "m_enabled m"
  shows
    "(let token = accessTokenFromHeader r;
          out = \<lparr>out_Method = ''GET'',
                 out_URL = m_iamURL m @ ''/permissions/has?permission='' @
                           QueryEscape (build (m_permission m) r),
                 out_Authorization = token\<rparr>
      in (CHR '' '' \<notin> set (req_Authorization r) \<longrightarrow> token = req_Authorization r) \<and>
         ServeHTTP m client r =
           (if token = [] then ([], Responded StatusUnauthorized [])
            else ([out],
                  case client out of
                    Inl err \<Rightarrow> Responded StatusInternalServerError []
                  | Inr res \<Rightarrow>
                      if res_StatusCode res = 200
                      then CalledNext
                             ((if Header_Get (res_Header res) ''x-access-token'' \<noteq> [] \<and>
                                  Header_Get (res_Header res) ''x-access-token'' \<noteq> token
                               then [(''x-access-token'',
                                      Header_Get (res_Header res) ''x-access-token'')]
                               else []) @
                              (if Header_Get (res_Header res) ''x-email'' \<noteq> []
                               then [(''x-email'', Header_Get (res_Header res) ''x-email'')]
                               else []))
                             None
                      else Responded (res_StatusCode res) [])))"
proof -
  define token where "token = accessTokenFromHeader r"
  define out where "out = auth_request m (build (m_permission m) r) token"
  have same: "CHR '' '' \<notin> set (req_Authorization r) \<longrightarrow> token = req_Authorization r"
    using accessTokenFromHeader_no_space [of r] by (simp add: token_def)
  have run: "ServeHTTP m client r =
      (if token = [] then ([], Responded StatusUnauthorized [])
       else ([out],
             case client out of
               Inl err \<Rightarrow> Responded StatusInternalServerError []
             | Inr res \<Rightarrow>
                 if res_StatusCode res = 200
                 then CalledNext
                        ((if Header_Get (res_Header res) ''x-access-token'' \<noteq> [] \<and>
                             Header_Get (res_Header res) ''x-access-token'' \<noteq> token
                          then [(''x-access-token'',
                                 Header_Get (res_Header res) ''x-access-token'')]
                          else []) @
                         (if Header_Get (res_Header res) ''x-email'' \<noteq> []
                          then [(''x-email'', Header_Get (res_Header res) ''x-email'')]
                          else []))
                        None
                 else Responded (res_StatusCode res) []))"
  proof (cases "token = []")
    case True
    then show ?thesis using assms by (simp add: ServeHTTP_def token_def)
  next
    case False
    show ?thesis
    proof (cases "client out")
      case (Inl err)
      then show ?thesis
        using assms False
        by (simp add: ServeHTTP_def token_def [symmetric] getAuthStatus_def out_def)
    next
      case (Inr res)
      then show ?thesis
        using assms False
        by (simp add: ServeHTTP_def token_def [symmetric] getAuthStatus_def out_def
              StatusOK_def)
    qed
  qed
  show ?thesis
    using same run unfolding Let_def token_def [symmetric] out_def auth_request_def
    by simp
qed

theorem ServeHTTP_enabled_spec_witness:
  "ServeHTTP enabled_middleware iam_client raw_token_request =
     ([\<lparr>out_Method = ''GET'',
        out_URL = ''http://iam/permissions/has?permission=svc%3A%3AOwner%3A%3Aact%3A%3Ares%2F1'',
        out_Authorization = ''tok123''\<rparr>],
      CalledNext [(''x-access-token'', ''tok456''), (''x-email'', ''a@x.com'')] None)"
proof -
  have en: "m_enabled enabled_middleware" by (simp add: enabled_middleware_def)
  have q: "QueryEscape ''svc::Owner::act::res/1'' = ''svc%3A%3AOwner%3A%3Aact%3A%3Ares%2F1''"
    by code_simp
  have t: "accessTokenFromHeader raw_token_request = ''tok123''"
    by code_simp
  show ?thesis
    using ServeHTTP_enabled_spec [OF en, of raw_token_request iam_client]
    by (simp add: q t build_def Let_def raw_token_request_def iam_client_def Header_Get_def
          enabled_middleware_def)
qed

text \<open>
  C9 as stated fails. A request without an \<^verbatim>\<open>Authorization\<close> header is answered 401
  and no request is issued; and the header \<^verbatim>\<open>Bearer abc\<close> is not forwarded unchanged
  (what is forwarded is \<^verbatim>\<open>Bearer\<close>).
\<close>

theorem ServeHTTP_not_forwarded_unchanged:
  "ServeHTTP enabled_middleware iam_client no_header_request =
     ([], Responded 401 []) \<and>
   req_Authorization bearer_request = ''Bearer abc'' \<and>
   map out_Authorization (fst (ServeHTTP enabled_middleware iam_client bearer_request)) =
     [''Bearer'']"
  by code_simp

section \<open>The authentication middleware: proofs\<close>

lemma Split_from_no_sep:
  "c \<notin> set s \<Longrightarrow> Split_from [c] acc s = [rev acc @ s]"
proof (induction s arbitrary: acc)
  case Nil
  show ?case by (subst Split_from.simps) simp
next
  case (Cons x xs)
  then show ?case by (subst Split_from.simps) auto
qed

lemma Split_no_sep: "c \<notin> set s \<Longrightarrow> Split s [c] = [s]"
  by (simp add: Split_def Split_from_no_sep)

lemma Split_empty: "Split [] sep = [[]]"
  unfolding Split_def by (subst Split_from.simps) simp

text \<open>
  A missing header, a header that does not split into exactly two parts, and a scheme
  other than \<^verbatim>\<open>KeyPair\<close> and \<^verbatim>\<open>Bearer\<close> are answered with 401, without calling the
  next handler and without touching the world.
\<close>

lemma authMiddleware_rejects_malformed:
  assumes "authorization = [] \<or> length (Split authorization '' '') \<noteq> 2 \<or>
           (Split authorization '' '' ! 0 \<noteq> ''KeyPair'' \<and>
            Split authorization '' '' ! 0 \<noteq> ''Bearer'')"
  shows "authMiddleware provider authorization w = (Responded StatusUnauthorized [], w)"
  using assms by (auto simp: authMiddleware_def Let_def)

text \<open>
  C7 (the code differs). With the \<^verbatim>\<open>KeyPair\<close> scheme, when the key-pair lookup finds no
  account (\<open>EntityNotFoundError\<close>), the middleware creates no account, but it answers
  with status 500: the 401 the \<^verbatim>\<open>Bearer\<close> branch gives for \<open>EntityNotFoundError\<close> is
  missing from the \<^verbatim>\<open>KeyPair\<close> branch.
\<close>

theorem authMiddleware_KeyPair_not_found:
  assumes "Split authorization '' '' = [''KeyPair'', cred]"
    and "Split cred '':'' = keyID # keySecret # rest"
    and "ServiceAccounts_ForKeyPair keyID keySecret w = (Inl EntityNotFoundError, w')"
  shows "authMiddleware provider authorization w = (Responded StatusInternalServerError [], w')
         \<and> db w' = db w"
proof -
  have ne: "authorization \<noteq> []"
    using assms(1) Split_empty [of "'' ''"] by auto
  have a: "AuthenticateKeyPair keyID keySecret w = (Inl EntityNotFoundError, w')"
    using assms(3) by (simp add: AuthenticateKeyPair_def and_then_def)
  have d: "db w' = db w"
    using assms(3)
    by (auto simp: ServiceAccounts_ForKeyPair_def read_db_def and_then_def storage_call_def
          find_or_not_found_def throw_def ret_def
          split: option.splits nat.splits)
  show ?thesis
    using ne a d assms(1,2) by (simp add: authMiddleware_def Let_def)
qed

theorem authMiddleware_KeyPair_not_found_witness:
  "authMiddleware first_login_provider ''KeyPair nokey:nosecret'' owner_world =
     (Responded 500 [], owner_world)"
proof -
  have 1: "Split ''KeyPair nokey:nosecret'' '' '' = [''KeyPair'', ''nokey:nosecret'']" by code_simp
  have 2: "Split ''nokey:nosecret'' '':'' = ''nokey'' # ''nosecret'' # []" by code_simp
  have 3: "ServiceAccounts_ForKeyPair ''nokey'' ''nosecret'' owner_world =
            (Inl EntityNotFoundError, owner_world)" by code_simp
  show ?thesis
    using authMiddleware_KeyPair_not_found [OF 1 2 3, of first_login_provider]
    by (simp add: StatusInternalServerError_def)
qed

text \<open>
  C8 (the code differs). A \<^verbatim>\<open>KeyPair\<close> credential without a colon makes the middleware
  panic at \<^verbatim>\<open>keyPair[1]\<close> instead of answering 401; the next handler is not called.
\<close>

theorem authMiddleware_KeyPair_no_colon:
  assumes "Split authorization '' '' = [''KeyPair'', cred]"
    and "CHR '':'' \<notin> set cred"
  shows "authMiddleware provider authorization w = (Panicked, w)"
proof -
  have ne: "authorization \<noteq> []"
    using assms(1) Split_empty [of "'' ''"] by auto
  have "Split cred '':'' = [cred]"
    using assms(2) by (rule Split_no_sep)
  then show ?thesis
    using ne assms(1) by (simp add: authMiddleware_def Let_def)
qed

theorem authMiddleware_KeyPair_no_colon_witness:
  "authMiddleware first_login_provider ''KeyPair abc'' owner_world = (Panicked, owner_world)"
proof -
  have 1: "Split ''KeyPair abc'' '' '' = [''KeyPair'', ''abc'']" by code_simp
  have 2: "CHR '':'' \<notin> set ''abc''" by simp
  show ?thesis
    using authMiddleware_KeyPair_no_colon [OF 1 2, of first_login_provider owner_world] by simp
qed

section \<open>Storage calls\<close>

lemma storage_call_keeps: "storage_call w = (r, w') \<Longrightarrow> db w' = db w \<and> entropy w' = entropy w"
  by (auto simp: storage_call_def split: option.splits nat.splits)

lemma storage_call_healthy: "calls_left w = None \<Longrightarrow> storage_call w = (Inr (), w)"
  by (simp add: storage_call_def)

lemma read_db_keeps: "read_db f w = (r, w') \<Longrightarrow> db w' = db w \<and> entropy w' = entropy w"
  by (cases "storage_call w"; cases "fst (storage_call w)")
     (auto simp: read_db_def and_then_def dest: storage_call_keeps)

lemma read_db_Inr: "read_db f w = (Inr x, w') \<Longrightarrow> x = f (db w)"
  by (cases "storage_call w"; cases "fst (storage_call w)")
     (auto simp: read_db_def and_then_def dest: storage_call_keeps)

lemma read_db_healthy: "calls_left w = None \<Longrightarrow> read_db f w = (Inr (f (db w)), w)"
  by (simp add: read_db_def and_then_def storage_call_healthy)

lemma write_db_Inr: "write_db f w = (Inr u, w') \<Longrightarrow> db w' = f (db w) \<and> entropy w' = entropy w"
  by (cases "storage_call w"; cases "fst (storage_call w)")
     (auto simp: write_db_def and_then_def dest: storage_call_keeps)

lemma and_then_InrE:
  assumes "and_then m f w = (Inr y, w'')"
  obtains x w' where "m w = (Inr x, w')" and "f x w' = (Inr y, w'')"
  using assms by (cases "m w"; cases "fst (m w)") (auto simp: and_then_def)

lemma and_then_ret: "and_then (ret x) f = f x"
  by (rule ext) (simp add: and_then_def ret_def)

lemma for_each_skip:
  "for_each xs (\<lambda>x. if c x then ret () else h x) = for_each (filter (\<lambda>x. \<not> c x) xs) h"
  by (induction xs) (simp_all add: and_then_ret)

lemma for_each_write:
  "for_each xs (\<lambda>x. write_db (g x)) w = (Inr u, w') \<Longrightarrow>
   db w' = fold g xs (db w) \<and> entropy w' = entropy w"
proof (induction xs arbitrary: w)
  case Nil
  then show ?case by (simp add: ret_def)
next
  case (Cons x xs)
  from Cons.prems obtain v w1 where
    1: "write_db (g x) w = (Inr v, w1)" and 2: "for_each xs (\<lambda>x. write_db (g x)) w1 = (Inr u, w')"
    by (auto elim: and_then_InrE)
  show ?case using write_db_Inr [OF 1] Cons.IH [OF 2] by simp
qed

lemma fold_append_bindings:
  "fold (\<lambda>x s. s\<lparr>role_bindings := role_bindings s @ [b x]\<rparr>) xs s =
     s\<lparr>role_bindings := role_bindings s @ map b xs\<rparr>"
  by (induction xs arbitrary: s) simp_all

lemma fold_append_permissions:
  "fold (\<lambda>x s. s\<lparr>permissions := permissions s @ [b x]\<rparr>) xs s =
     s\<lparr>permissions := permissions s @ map b xs\<rparr>"
  by (induction xs arbitrary: s) simp_all

lemma find_or_not_found_Inr:
  "find_or_not_found P xs w = (Inr x, w') \<Longrightarrow> find P xs = Some x \<and> w' = w"
  by (auto simp: find_or_not_found_def throw_def ret_def split: option.splits)

lemma ServiceAccounts_Get_Inr:
  assumes "ServiceAccounts_Get saID w = (Inr sa, w')"
  shows "find (\<lambda>sa. sa_ID sa = saID) (service_accounts (db w)) = Some sa \<and> db w' = db w
         \<and> entropy w' = entropy w"
proof -
  from assms obtain xs w1 where 1: "read_db service_accounts w = (Inr xs, w1)"
    and 2: "find_or_not_found (\<lambda>sa. sa_ID sa = saID) xs w1 = (Inr sa, w')"
    unfolding ServiceAccounts_Get_def by (erule and_then_InrE)
  show ?thesis
    using read_db_Inr [OF 1] read_db_keeps [OF 1] find_or_not_found_Inr [OF 2] by simp
qed

lemma UpdateWithNested_tx_Inr:
  assumes "UpdateWithNested_tx sawn w = (Inr u, w')"
  shows "\<exists>sa0. find (\<lambda>sa. sa_ID sa = sawn_ID sawn) (service_accounts (db w)) = Some sa0 \<and>
           db w' = updated_store sawn sa0 (db w)"
proof -
  from assms obtain sa0 w1 where g: "ServiceAccounts_Get (sawn_ID sawn) w = (Inr sa0, w1)"
    and r1: "and_then (ServiceAccounts_Update (sa0\<lparr>sa_Name := sawn_Name sawn, sa_Email := sawn_Name sawn\<rparr>))
       (\<lambda>_.
     and_then (ServiceAccounts_DropBindings (sawn_ID sawn)) (\<lambda>_.
     and_then
       (for_each (sawn_RolesIDs sawn) (\<lambda>roleID.
          if roleID = sa_BaseRoleID sa0 then ret ()
          else Roles_Bind \<lparr>rb_ServiceAccountID = sa_ID sa0, rb_RoleID = roleID\<rparr>)) (\<lambda>_.
     and_then (Roles_DropPermissions (sa_BaseRoleID sa0)) (\<lambda>_.
       for_each (sawn_Permissions sawn) (\<lambda>p.
          Permissions_Create (p\<lparr>p_RoleID := sa_BaseRoleID sa0\<rparr>)))))) w1 = (Inr u, w')"
    unfolding UpdateWithNested_tx_def by (erule and_then_InrE)
  from r1 obtain u2 w2 where
    upd: "ServiceAccounts_Update (sa0\<lparr>sa_Name := sawn_Name sawn, sa_Email := sawn_Name sawn\<rparr>) w1 = (Inr u2, w2)"
    and r2: "and_then (ServiceAccounts_DropBindings (sawn_ID sawn)) (\<lambda>_.
     and_then
       (for_each (sawn_RolesIDs sawn) (\<lambda>roleID.
          if roleID = sa_BaseRoleID sa0 then ret ()
          else Roles_Bind \<lparr>rb_ServiceAccountID = sa_ID sa0, rb_RoleID = roleID\<rparr>)) (\<lambda>_.
     and_then (Roles_DropPermissions (sa_BaseRoleID sa0)) (\<lambda>_.
       for_each (sawn_Permissions sawn) (\<lambda>p.
          Permissions_Create (p\<lparr>p_RoleID := sa_BaseRoleID sa0\<rparr>))))) w2 = (Inr u, w')"
    by (erule and_then_InrE)
  from r2 obtain u3 w3 where
    drop: "ServiceAccounts_DropBindings (sawn_ID sawn) w2 = (Inr u3, w3)"
    and r3: "and_then
       (for_each (sawn_RolesIDs sawn) (\<lambda>roleID.
          if roleID = sa_BaseRoleID sa0 then ret ()
          else Roles_Bind \<lparr>rb_ServiceAccountID = sa_ID sa0, rb_RoleID = roleID\<rparr>)) (\<lambda>_.
     and_then (Roles_DropPermissions (sa_BaseRoleID sa0)) (\<lambda>_.
       for_each (sawn_Permissions sawn) (\<lambda>p.
          Permissions_Create (p\<lparr>p_RoleID := sa_BaseRoleID sa0\<rparr>)))) w3 = (Inr u, w')"
    by (erule and_then_InrE)
  from r3 obtain u4 w4 where
    binds: "for_each (sawn_RolesIDs sawn) (\<lambda>roleID.
          if roleID = sa_BaseRoleID sa0 then ret ()
          else Roles_Bind \<lparr>rb_ServiceAccountID = sa_ID sa0, rb_RoleID = roleID\<rparr>) w3 = (Inr u4, w4)"
    and r4: "and_then (Roles_DropPermissions (sa_BaseRoleID sa0)) (\<lambda>_.
       for_each (sawn_Permissions sawn) (\<lambda>p.
          Permissions_Create (p\<lparr>p_RoleID := sa_BaseRoleID sa0\<rparr>))) w4 = (Inr u, w')"
    by (erule and_then_InrE)
  from r4 obtain u5 w5 where
    dropp: "Roles_DropPermissions (sa_BaseRoleID sa0) w4 = (Inr u5, w5)"
    and perms: "for_each (sawn_Permissions sawn) (\<lambda>p.
          Permissions_Create (p\<lparr>p_RoleID := sa_BaseRoleID sa0\<rparr>)) w5 = (Inr u, w')"
    by (erule and_then_InrE)
  note g' = ServiceAccounts_Get_Inr [OF g]
  have id0: "sa_ID sa0 = sawn_ID sawn"
    using g' by (auto dest: find_Some_iff [THEN iffD1])
  have d2: "db w2 = (db w)\<lparr>service_accounts :=
                  map (\<lambda>x. if sa_ID x = sa_ID sa0
                            then sa0\<lparr>sa_Name := sawn_Name sawn, sa_Email := sawn_Name sawn\<rparr> else x)
                    (service_accounts (db w))\<rparr>"
    using write_db_Inr [OF upd [unfolded ServiceAccounts_Update_def]] g' by simp
  have d3: "db w3 = (db w2)\<lparr>role_bindings :=
       filter (\<lambda>b. rb_ServiceAccountID b \<noteq> sawn_ID sawn \<or> is_base_binding (db w2) b)
         (role_bindings (db w2))\<rparr>"
    using write_db_Inr [OF drop [unfolded ServiceAccounts_DropBindings_def]] by simp
  have binds': "for_each (filter (\<lambda>roleID. roleID \<noteq> sa_BaseRoleID sa0) (sawn_RolesIDs sawn))
      (\<lambda>roleID. write_db (\<lambda>s. s\<lparr>role_bindings := role_bindings s @
          [\<lparr>rb_ServiceAccountID = sa_ID sa0, rb_RoleID = roleID\<rparr>]\<rparr>)) w3 = (Inr u4, w4)"
    using binds unfolding for_each_skip Roles_Bind_def by simp
  have d4: "db w4 = (db w3)\<lparr>role_bindings := role_bindings (db w3) @
       map (\<lambda>roleID. \<lparr>rb_ServiceAccountID = sa_ID sa0, rb_RoleID = roleID\<rparr>)
         (filter (\<lambda>roleID. roleID \<noteq> sa_BaseRoleID sa0) (sawn_RolesIDs sawn))\<rparr>"
    using for_each_write [OF binds'] by (simp add: fold_append_bindings)
  have d5: "db w5 = (db w4)\<lparr>permissions :=
       filter (\<lambda>p. p_RoleID p \<noteq> sa_BaseRoleID sa0) (permissions (db w4))\<rparr>"
    using write_db_Inr [OF dropp [unfolded Roles_DropPermissions_def]] by simp
  have perms': "for_each (sawn_Permissions sawn)
      (\<lambda>p. write_db (\<lambda>s. s\<lparr>permissions := permissions s @ [p\<lparr>p_RoleID := sa_BaseRoleID sa0\<rparr>]\<rparr>)) w5
        = (Inr u, w')"
    using perms unfolding Permissions_Create_def by simp
  have d6: "db w' = (db w5)\<lparr>permissions := permissions (db w5) @
       map (\<lambda>p. p\<lparr>p_RoleID := sa_BaseRoleID sa0\<rparr>) (sawn_Permissions sawn)\<rparr>"
    using for_each_write [OF perms'] by (simp add: fold_append_permissions)
  have "db w' = updated_store sawn sa0 (db w)"
    unfolding d6 d5 d4 d3 d2 updated_store_def Let_def by simp
  then show ?thesis using g' by blast
qed

section \<open>The lifecycle use cases\<close>

lemma WithPGTx_Inr: "WithPGTx body w = (Inr x, w') \<Longrightarrow> body w = (Inr x, w')"
  by (cases "body w"; cases "fst (body w)") (auto simp: WithPGTx_def)


text \<open>
  Every storage call a use case makes costs one call of the connection, so a callback
  that returns without error has made all of its calls: none of its
  \<^verbatim>\<open>if err != nil { return err }\<close> lets a failed step pass.
\<close>

lemma storage_call_cost:
  "storage_call w = (Inr u, w') \<Longrightarrow> calls_left w = Some n \<Longrightarrow>
   1 \<le> n \<and> calls_left w' = Some (n - 1)"
  by (auto simp: storage_call_def split: nat.splits)




lemma assigned_id_free: "assigned_id w = (Inr u, w') \<Longrightarrow> calls_left w' = calls_left w"
  by (auto simp: assigned_id_def split: list.splits)










lemma UpdateWithNested_Inr:
  assumes "UpdateWithNested sawn w = (Inr u, w')"
  shows "\<exists>sa0. find (\<lambda>sa. sa_ID sa = sawn_ID sawn) (service_accounts (db w)) = Some sa0 \<and>
           db w' = updated_store sawn sa0 (db w)"
  using assms unfolding UpdateWithNested_def by (blast dest: WithPGTx_Inr UpdateWithNested_tx_Inr)

lemma find_map_comp: "find P (map f xs) = map_option f (find (P \<circ> f) xs)"
  by (induction xs) auto

text \<open>
  C5 (the code differs). A successful \<^verbatim>\<open>UpdateWithNested\<close> stores the submitted name
  both as the account's name and as its email (\<^verbatim>\<open>sa.Email = sawn.Name\<close>); the submitted
  email is not stored.
\<close>

theorem UpdateWithNested_email_is_name:
  assumes "UpdateWithNested sawn w = (Inr u, w')"
  shows "\<exists>sa. find (\<lambda>sa. sa_ID sa = sawn_ID sawn) (service_accounts (db w')) = Some sa \<and>
              sa_Name sa = sawn_Name sawn \<and> sa_Email sa = sawn_Name sawn"
proof -
  from UpdateWithNested_Inr [OF assms] obtain sa0 where
    f: "find (\<lambda>sa. sa_ID sa = sawn_ID sawn) (service_accounts (db w)) = Some sa0"
    and d: "db w' = updated_store sawn sa0 (db w)" by blast
  define f' where "f' = (\<lambda>x. if sa_ID x = sa_ID sa0
       then sa0\<lparr>sa_Name := sawn_Name sawn, sa_Email := sawn_Name sawn\<rparr> else x)"
  have sa: "service_accounts (db w') = map f' (service_accounts (db w))"
    by (simp add: d updated_store_def Let_def f'_def)
  have id0: "sa_ID sa0 = sawn_ID sawn"
    using f by (auto dest: find_Some_iff [THEN iffD1])
  have c: "(\<lambda>sa. sa_ID sa = sawn_ID sawn) \<circ> f' = (\<lambda>sa. sa_ID sa = sawn_ID sawn)"
    by (rule ext) (simp add: f'_def)
  have "find (\<lambda>sa. sa_ID sa = sawn_ID sawn) (service_accounts (db w')) = Some (f' sa0)"
    by (simp add: sa find_map_comp c f)
  then show ?thesis by (simp add: f'_def)
qed

theorem UpdateWithNested_email_is_name_witness:
  "sawn_Email rename_request = ''bob@x.com'' \<and>
   fst (UpdateWithNested rename_request owner_world) = Inr () \<and>
   (\<exists>sa. find (\<lambda>sa. sa_ID sa = ''a1'')
            (service_accounts (db (snd (UpdateWithNested rename_request owner_world)))) = Some sa \<and>
         sa_Name sa = ''bob'' \<and> sa_Email sa = ''bob'')"
proof -
  have 1: "fst (UpdateWithNested rename_request owner_world) = Inr ()" by code_simp
  then have 2: "UpdateWithNested rename_request owner_world =
      (Inr (), snd (UpdateWithNested rename_request owner_world))"
    by (simp add: prod_eq_iff)
  show ?thesis
    using UpdateWithNested_email_is_name [OF 2] 1 by (simp add: rename_request_def)
qed

lemma updated_store_base_binding:
  assumes f: "find (\<lambda>sa. sa_ID sa = saID) (service_accounts s) = Some sa0"
    and b: "rb_ServiceAccountID b = saID"
  shows "is_base_binding
           (s\<lparr>service_accounts :=
                map (\<lambda>x. if sa_ID x = sa_ID sa0 then sa0\<lparr>sa_Name := n, sa_Email := e\<rparr> else x)
                  (service_accounts s)\<rparr>) b
         \<longleftrightarrow> rb_RoleID b = sa_BaseRoleID sa0"
proof -
  have id0: "sa_ID sa0 = saID" and mem: "sa0 \<in> set (service_accounts s)"
    using f by (auto simp: find_Some_iff in_set_conv_nth)
  define f' where "f' = (\<lambda>x. if sa_ID x = sa_ID sa0 then sa0\<lparr>sa_Name := n, sa_Email := e\<rparr> else x)"
  have same: "sa_ID (f' x) = saID \<Longrightarrow> sa_BaseRoleID (f' x) = sa_BaseRoleID sa0" for x
    using id0 by (simp add: f'_def split: if_splits)
  have own: "sa_ID (f' sa0) = saID \<and> sa_BaseRoleID (f' sa0) = sa_BaseRoleID sa0"
    using id0 by (simp add: f'_def)
  have "is_base_binding (s\<lparr>service_accounts := map f' (service_accounts s)\<rparr>) b \<longleftrightarrow>
        (\<exists>x\<in>set (service_accounts s). sa_ID (f' x) = saID \<and> sa_BaseRoleID (f' x) = rb_RoleID b)"
    using b by (simp add: is_base_binding_def list_ex_iff)
  also have "\<dots> \<longleftrightarrow> rb_RoleID b = sa_BaseRoleID sa0"
    using same own mem by metis
  finally show ?thesis by (simp add: f'_def)
qed

text \<open>
  C4. After a successful \<^verbatim>\<open>UpdateWithNested\<close> of an existing account that is bound to
  its base role, the roles bound to the account are exactly the base role and the
  requested roles; bindings to other roles are gone, and the account has as many
  bindings to its base role as before (none is dropped, none is added when the base
  role is among the requested roles).
\<close>

theorem UpdateWithNested_replaces_bindings:
  assumes run: "UpdateWithNested sawn w = (Inr u, w')"
    and acc: "find (\<lambda>sa. sa_ID sa = sawn_ID sawn) (service_accounts (db w)) = Some sa"
    and base: "\<lparr>rb_ServiceAccountID = sawn_ID sawn, rb_RoleID = sa_BaseRoleID sa\<rparr>
                 \<in> set (role_bindings (db w))"
  shows "set (map rb_RoleID (filter (\<lambda>b. rb_ServiceAccountID b = sawn_ID sawn)
                                (role_bindings (db w')))) =
           insert (sa_BaseRoleID sa) (set (sawn_RolesIDs sawn)) \<and>
         length (filter (\<lambda>b. rb_ServiceAccountID b = sawn_ID sawn \<and> rb_RoleID b = sa_BaseRoleID sa)
                   (role_bindings (db w'))) =
         length (filter (\<lambda>b. rb_ServiceAccountID b = sawn_ID sawn \<and> rb_RoleID b = sa_BaseRoleID sa)
                   (role_bindings (db w)))"
proof -
  from UpdateWithNested_Inr [OF run] acc have d: "db w' = updated_store sawn sa (db w)"
    by auto
  have id0: "sa_ID sa = sawn_ID sawn"
    using acc by (auto simp: find_Some_iff)
  define kept where "kept = filter (\<lambda>b. rb_ServiceAccountID b = sawn_ID sawn \<longrightarrow>
      rb_RoleID b = sa_BaseRoleID sa) (role_bindings (db w))"
  define added where "added = map (\<lambda>roleID. \<lparr>rb_ServiceAccountID = sa_ID sa, rb_RoleID = roleID\<rparr>)
      (filter (\<lambda>roleID. roleID \<noteq> sa_BaseRoleID sa) (sawn_RolesIDs sawn))"
  have "filter (\<lambda>b. rb_ServiceAccountID b \<noteq> sawn_ID sawn \<or>
           is_base_binding ((db w)\<lparr>service_accounts :=
                map (\<lambda>x. if sa_ID x = sa_ID sa
                          then sa\<lparr>sa_Name := sawn_Name sawn, sa_Email := sawn_Name sawn\<rparr> else x)
                  (service_accounts (db w))\<rparr>) b) (role_bindings (db w)) = kept"
    unfolding kept_def
    by (rule filter_cong [OF refl]) (use updated_store_base_binding [OF acc] in blast)
  then have rb: "role_bindings (db w') = kept @ added"
    by (simp add: d updated_store_def Let_def added_def)
  have k1: "rb_RoleID ` {b \<in> set kept. rb_ServiceAccountID b = sawn_ID sawn} = {sa_BaseRoleID sa}"
    using base unfolding kept_def by force
  have a1: "rb_RoleID ` {b \<in> set added. rb_ServiceAccountID b = sawn_ID sawn} =
            set (sawn_RolesIDs sawn) - {sa_BaseRoleID sa}"
    unfolding added_def using id0 by force
  have "{b \<in> set (kept @ added). rb_ServiceAccountID b = sawn_ID sawn} =
        {b \<in> set kept. rb_ServiceAccountID b = sawn_ID sawn} \<union>
        {b \<in> set added. rb_ServiceAccountID b = sawn_ID sawn}"
    by auto
  then have "rb_RoleID ` {b \<in> set (role_bindings (db w')). rb_ServiceAccountID b = sawn_ID sawn} =
      insert (sa_BaseRoleID sa) (set (sawn_RolesIDs sawn))"
    unfolding rb by (simp add: image_Un k1 a1)
  then have set_eq: "set (map rb_RoleID (filter (\<lambda>b. rb_ServiceAccountID b = sawn_ID sawn)
                                (role_bindings (db w')))) =
      insert (sa_BaseRoleID sa) (set (sawn_RolesIDs sawn))"
    by simp
  have k2: "filter (\<lambda>b. rb_ServiceAccountID b = sawn_ID sawn \<and> rb_RoleID b = sa_BaseRoleID sa) kept =
            filter (\<lambda>b. rb_ServiceAccountID b = sawn_ID sawn \<and> rb_RoleID b = sa_BaseRoleID sa)
              (role_bindings (db w))"
    unfolding kept_def by (simp add: conj_commute) (rule filter_cong, auto)
  have a2: "filter (\<lambda>b. rb_ServiceAccountID b = sawn_ID sawn \<and> rb_RoleID b = sa_BaseRoleID sa) added = []"
    unfolding added_def by (auto simp: filter_empty_conv)
  show ?thesis
    using set_eq by (simp add: rb k2 a2)
qed

theorem UpdateWithNested_replaces_bindings_witness:
  "fst (UpdateWithNested rebind_request bound_world) = Inr () \<and>
   map rb_RoleID (filter (\<lambda>b. rb_ServiceAccountID b = ''a1'') (role_bindings (db bound_world))) =
     [''b1'', ''R1'', ''R2''] \<and>
   set (map rb_RoleID (filter (\<lambda>b. rb_ServiceAccountID b = ''a1'')
          (role_bindings (db (snd (UpdateWithNested rebind_request bound_world)))))) =
     {''b1'', ''R2'', ''R3''} \<and>
   length (filter (\<lambda>b. rb_ServiceAccountID b = ''a1'' \<and> rb_RoleID b = ''b1'')
             (role_bindings (db (snd (UpdateWithNested rebind_request bound_world))))) = 1"
proof -
  have 1: "fst (UpdateWithNested rebind_request bound_world) = Inr ()" by code_simp
  then have 2: "UpdateWithNested rebind_request bound_world =
      (Inr (), snd (UpdateWithNested rebind_request bound_world))"
    by (simp add: prod_eq_iff)
  have 3: "find (\<lambda>sa. sa_ID sa = sawn_ID rebind_request) (service_accounts (db bound_world)) =
           Some account_a1"
    by (simp add: rebind_request_def bound_world_def account_a1_def)
  have 4: "\<lparr>rb_ServiceAccountID = sawn_ID rebind_request, rb_RoleID = sa_BaseRoleID account_a1\<rparr>
             \<in> set (role_bindings (db bound_world))"
    by (simp add: rebind_request_def bound_world_def account_a1_def)
  have 5: "map rb_RoleID (filter (\<lambda>b. rb_ServiceAccountID b = ''a1'') (role_bindings (db bound_world))) =
     [''b1'', ''R1'', ''R2'']"
    by (simp add: bound_world_def)
  have 6: "length (filter (\<lambda>b. rb_ServiceAccountID b = ''a1'' \<and> rb_RoleID b = ''b1'')
             (role_bindings (db bound_world))) = 1"
    by (simp add: bound_world_def)
  show ?thesis
    using UpdateWithNested_replaces_bindings [OF 2 3 4] 1 5 6
    by (auto simp: rebind_request_def account_a1_def)
qed

section \<open>Authorization of create requests\<close>

lemma holds_as_owner_fun:
  "holds_as_owner s saID =
     (\<lambda>p. IsPresent (p\<lparr>p_OwnershipLevel := Owner\<rparr>) (permissions_for_service_account s saID))"
  by (rule ext) (simp add: holds_as_owner_def)

lemma GetPermissions_keeps: "GetPermissions saID w = (r, w') \<Longrightarrow> db w' = db w"
  unfolding GetPermissions_def serviceAccountGetPermissions_def Permissions_ForServiceAccount_def
  by (blast dest: read_db_keeps)

lemma GetPermissions_Inr:
  "GetPermissions saID w = (Inr held, w') \<Longrightarrow> held = permissions_for_service_account (db w) saID"
  unfolding GetPermissions_def serviceAccountGetPermissions_def Permissions_ForServiceAccount_def
  by (blast dest: read_db_Inr)

lemma GetPermissions_healthy:
  "calls_left w = None \<Longrightarrow>
   GetPermissions saID w = (Inr (permissions_for_service_account (db w) saID), w)"
  unfolding GetPermissions_def serviceAccountGetPermissions_def Permissions_ForServiceAccount_def
  by (rule read_db_healthy)

lemma HasAllOwnerPermissions_keeps:
  "HasAllOwnerPermissions saID perms w = (r, w') \<Longrightarrow> db w' = db w"
  by (cases "GetPermissions saID w"; cases "fst (GetPermissions saID w)")
     (auto simp: HasAllOwnerPermissions_run dest: GetPermissions_keeps)

lemma HasAllOwnerPermissions_Inr:
  "HasAllOwnerPermissions saID perms w = (Inr has, w') \<Longrightarrow>
   has = (list_all (holds_as_owner (db w) saID) perms, perms)"
  by (cases "GetPermissions saID w"; cases "fst (GetPermissions saID w)")
     (auto simp: HasAllOwnerPermissions_run holds_as_owner_fun dest: GetPermissions_Inr)

lemma HasAllOwnerPermissions_healthy:
  "calls_left w = None \<Longrightarrow>
   HasAllOwnerPermissions saID perms w =
     (Inr (list_all (holds_as_owner (db w) saID) perms, perms), w)"
  by (simp add: HasAllOwnerPermissions_run GetPermissions_healthy holds_as_owner_fun)

lemma collect_roles_permissions_keeps:
  "collect_roles_permissions rolesIDs ps w = (r, w') \<Longrightarrow> db w' = db w"
proof (induction rolesIDs arbitrary: ps w)
  case Nil
  then show ?case by (simp add: ret_def)
next
  case (Cons roleID rolesIDs)
  obtain r1 w1 where 1: "Permissions_ForRole roleID w = (r1, w1)"
    by (cases "Permissions_ForRole roleID w")
  have k: "db w1 = db w"
    using 1 unfolding Permissions_ForRole_def by (blast dest: read_db_keeps)
  show ?case
  proof (cases r1)
    case (Inl e)
    then show ?thesis using Cons.prems 1 k by (simp add: and_then_def)
  next
    case (Inr rps)
    then show ?thesis using Cons.prems 1 k Cons.IH [of "ps @ rps" w1] by (simp add: and_then_def)
  qed
qed

lemma collect_roles_permissions_Inr:
  "collect_roles_permissions rolesIDs ps w = (Inr all, w') \<Longrightarrow>
   all = ps @ roles_permissions (db w) rolesIDs"
proof (induction rolesIDs arbitrary: ps w)
  case Nil
  then show ?case by (simp add: ret_def roles_permissions_def)
next
  case (Cons roleID rolesIDs)
  from Cons.prems obtain rps w1 where 1: "Permissions_ForRole roleID w = (Inr rps, w1)"
    and 2: "collect_roles_permissions rolesIDs (ps @ rps) w1 = (Inr all, w')"
    by (auto elim: and_then_InrE)
  have k: "db w1 = db w" and v: "rps = permissions_for_role (db w) roleID"
    using 1 unfolding Permissions_ForRole_def by (blast dest: read_db_keeps read_db_Inr)+
  show ?case using Cons.IH [OF 2] k v by (simp add: roles_permissions_def)
qed

lemma collect_roles_permissions_healthy:
  "calls_left w = None \<Longrightarrow>
   collect_roles_permissions rolesIDs ps w = (Inr (ps @ roles_permissions (db w) rolesIDs), w)"
  by (induction rolesIDs arbitrary: ps)
     (simp_all add: ret_def roles_permissions_def Permissions_ForRole_def read_db_healthy
        and_then_def)

lemma HasAllOwnerRolesPermissions_keeps:
  "HasAllOwnerRolesPermissions saID rolesIDs w = (r, w') \<Longrightarrow> db w' = db w"
proof -
  assume a: "HasAllOwnerRolesPermissions saID rolesIDs w = (r, w')"
  obtain r1 w1 where 1: "collect_roles_permissions rolesIDs [] w = (r1, w1)"
    by (cases "collect_roles_permissions rolesIDs [] w")
  have k1: "db w1 = db w" using collect_roles_permissions_keeps [OF 1] .
  show ?thesis
  proof (cases r1)
    case (Inl e)
    then show ?thesis using a 1 k1 by (simp add: HasAllOwnerRolesPermissions_def and_then_def)
  next
    case (Inr ps)
    obtain r2 w2 where 2: "HasAllOwnerPermissions saID ps w1 = (r2, w2)"
      by (cases "HasAllOwnerPermissions saID ps w1")
    have k2: "db w2 = db w1" using HasAllOwnerPermissions_keeps [OF 2] .
    show ?thesis using a 1 2 Inr k1 k2
      by (cases r2) (simp_all add: HasAllOwnerRolesPermissions_def and_then_def ret_def)
  qed
qed

lemma HasAllOwnerRolesPermissions_Inr:
  assumes "HasAllOwnerRolesPermissions saID rolesIDs w = (Inr has, w')"
  shows "has = list_all (holds_as_owner (db w) saID) (roles_permissions (db w) rolesIDs)"
proof -
  from assms obtain ps w1 where 1: "collect_roles_permissions rolesIDs [] w = (Inr ps, w1)"
    and r: "and_then (HasAllOwnerPermissions saID ps) (\<lambda>r. ret (fst r)) w1 = (Inr has, w')"
    unfolding HasAllOwnerRolesPermissions_def by (erule and_then_InrE)
  from r obtain h w2 where 2: "HasAllOwnerPermissions saID ps w1 = (Inr h, w2)"
    and 3: "ret (fst h) w2 = (Inr has, w')"
    by (erule and_then_InrE)
  show ?thesis
    using collect_roles_permissions_Inr [OF 1] collect_roles_permissions_keeps [OF 1]
      HasAllOwnerPermissions_Inr [OF 2] 3
    by (simp add: ret_def)
qed

lemma HasAllOwnerRolesPermissions_healthy:
  "calls_left w = None \<Longrightarrow>
   HasAllOwnerRolesPermissions saID rolesIDs w =
     (Inr (list_all (holds_as_owner (db w) saID) (roles_permissions (db w) rolesIDs)), w)"
  by (simp add: HasAllOwnerRolesPermissions_def collect_roles_permissions_healthy
        HasAllOwnerPermissions_healthy and_then_def ret_def)

lemma BuildPermissions_length:
  "BuildPermissions strs = Inr ps \<Longrightarrow> length ps = length strs"
  by (induction strs arbitrary: ps) (auto split: sum.splits)

lemma holds_as_owner_alias: "holds_as_owner s saID (p\<lparr>p_Alias := a\<rparr>) = holds_as_owner s saID p"
  by (simp add: holds_as_owner_def IsPresent_def satisfies_def)

lemma holds_as_owner_apply_aliases:
  assumes "length strs = length ps"
  shows "list_all (holds_as_owner s saID) (apply_aliases aliases strs ps) =
         list_all (holds_as_owner s saID) ps"
proof -
  have "list_all (holds_as_owner s saID) (apply_aliases aliases strs ps) =
        list_all (holds_as_owner s saID) (map snd (zip strs ps))"
    unfolding apply_aliases_def list_all_iff
    by (auto simp: holds_as_owner_alias split: option.splits)
  then show ?thesis using assms by simp
qed

lemma processServiceAccountWithNestedFromReq_cases:
  assumes run: "processServiceAccountWithNestedFromReq r w = (res, w')"
  shows "db w' = db w \<and>
         (\<forall>sawn'. res = Inr sawn' \<longrightarrow>
            (\<exists>sawn ps. sar_body r = Some sawn \<and>
               BuildPermissions (sawn_PermissionsStrings sawn) = Inr ps \<and>
               list_all (holds_as_owner (db w) (fst (getServiceAccountID (sar_ctx_serviceAccountID r))))
                 (roles_permissions (db w) (sawn_RolesIDs sawn)) \<and>
               list_all (holds_as_owner (db w) (fst (getServiceAccountID (sar_ctx_serviceAccountID r)))) ps))"
proof (cases "sar_body r")
  case None
  then show ?thesis using run by (auto simp: processServiceAccountWithNestedFromReq_def throw_def)
next
  case (Some sawn)
  define saID where "saID = fst (getServiceAccountID (sar_ctx_serviceAccountID r))"
  obtain r1 w1 where 1: "HasAllOwnerRolesPermissions saID (sawn_RolesIDs sawn) w = (r1, w1)"
    by (cases "HasAllOwnerRolesPermissions saID (sawn_RolesIDs sawn) w")
  have k1: "db w1 = db w" using HasAllOwnerRolesPermissions_keeps [OF 1] .
  show ?thesis
  proof (cases r1)
    case (Inl e)
    then show ?thesis using run Some 1 k1
      by (auto simp: processServiceAccountWithNestedFromReq_def and_then_def saID_def [symmetric])
  next
    case (Inr hasRoles)
    have hr: "hasRoles = list_all (holds_as_owner (db w) saID) (roles_permissions (db w) (sawn_RolesIDs sawn))"
      using HasAllOwnerRolesPermissions_Inr 1 Inr by blast
    show ?thesis
    proof (cases hasRoles)
      case False
      then show ?thesis using run Some 1 k1 Inr
        by (auto simp: processServiceAccountWithNestedFromReq_def and_then_def throw_def
              saID_def [symmetric])
    next
      case True
      show ?thesis
      proof (cases "BuildPermissions (sawn_PermissionsStrings sawn)")
        case (Inl e)
        then show ?thesis using run Some 1 k1 Inr True
          by (auto simp: processServiceAccountWithNestedFromReq_def and_then_def throw_def
                saID_def [symmetric])
      next
        case ps: (Inr ps)
        define ps' where "ps' = apply_aliases (sawn_PermissionsAliases sawn)
                           (sawn_PermissionsStrings sawn) ps"
        obtain r2 w2 where 2: "HasAllOwnerPermissions saID ps' w1 = (r2, w2)"
          by (cases "HasAllOwnerPermissions saID ps' w1")
        have k2: "db w2 = db w1" using HasAllOwnerPermissions_keeps [OF 2] .
        have step: "processServiceAccountWithNestedFromReq r w =
            (case r2 of Inl e \<Rightarrow> (Inl e, w2)
             | Inr has \<Rightarrow> if \<not> fst has then (Inl UserDoesntHaveAllPermissionsError, w2)
                          else (Inr (sawn\<lparr>sawn_Permissions := snd has\<rparr>), w2))"
          using Some 1 Inr True ps 2
          by (simp add: processServiceAccountWithNestedFromReq_def and_then_def throw_def ret_def
                saID_def [symmetric] ps'_def [symmetric] split: sum.splits)
        show ?thesis
        proof (cases r2)
          case (Inl e)
          then show ?thesis using run step k1 k2 by auto
        next
          case has: (Inr has)
          have "has = (list_all (holds_as_owner (db w1) saID) ps', ps')"
            using HasAllOwnerPermissions_Inr 2 has by blast
          then have h: "fst has = list_all (holds_as_owner (db w) saID) ps"
            using k1 BuildPermissions_length [OF ps]
            by (simp add: ps'_def holds_as_owner_apply_aliases)
          show ?thesis
            using run step has k1 k2 h hr True Some ps
            by (auto simp: saID_def split: if_splits)
        qed
      qed
    qed
  qed
qed

lemma processServiceAccountWithNestedFromReq_healthy_rejects:
  assumes body: "sar_body r = Some sawn"
    and healthy: "calls_left w = None"
    and lacking:
      "\<not> list_all (holds_as_owner (db w) (fst (getServiceAccountID (sar_ctx_serviceAccountID r))))
           (roles_permissions (db w) (sawn_RolesIDs sawn)) \<or>
       (\<exists>ps. BuildPermissions (sawn_PermissionsStrings sawn) = Inr ps \<and>
          \<not> list_all (holds_as_owner (db w) (fst (getServiceAccountID (sar_ctx_serviceAccountID r)))) ps)"
  shows "processServiceAccountWithNestedFromReq r w = (Inl UserDoesntHaveAllPermissionsError, w)"
proof -
  define saID where "saID = fst (getServiceAccountID (sar_ctx_serviceAccountID r))"
  note roles = HasAllOwnerRolesPermissions_healthy [OF healthy, of saID "sawn_RolesIDs sawn"]
  show ?thesis
  proof (cases "list_all (holds_as_owner (db w) saID) (roles_permissions (db w) (sawn_RolesIDs sawn))")
    case False
    then show ?thesis using body roles
      by (simp add: processServiceAccountWithNestedFromReq_def and_then_def throw_def
            saID_def [symmetric])
  next
    case True
    with lacking obtain ps where ps: "BuildPermissions (sawn_PermissionsStrings sawn) = Inr ps"
      and no: "\<not> list_all (holds_as_owner (db w) saID) ps"
      by (auto simp: saID_def)
    have "\<not> list_all (holds_as_owner (db w) saID)
             (apply_aliases (sawn_PermissionsAliases sawn) (sawn_PermissionsStrings sawn) ps)"
      using no BuildPermissions_length [OF ps] by (simp add: holds_as_owner_apply_aliases)
    then show ?thesis using body roles True ps
      by (simp add: processServiceAccountWithNestedFromReq_def and_then_def throw_def
            saID_def [symmetric] HasAllOwnerPermissions_healthy [OF healthy])
  qed
qed

text \<open>
  C1. A create request whose acting account does not hold, at Owner level, every
  permission attached to the roles being bound, or every inline permission being
  granted, creates nothing: the database is left as it was, whatever the storage does.
  When the storage answers, the request is rejected with
  \<open>UserDoesntHaveAllPermissionsError\<close> (status 403) and the world is unchanged. In
  particular (the witness) an account holding only \<^verbatim>\<open>svc::Lender::act::res\<close> is
  rejected when it asks for the inline permission \<^verbatim>\<open>svc::Owner::act::res\<close>.
\<close>

theorem create_rejected_without_owner:
  assumes body: "sar_body r = Some sawn"
    and lacking:
      "\<not> list_all (holds_as_owner (db w) (fst (getServiceAccountID (sar_ctx_serviceAccountID r))))
           (roles_permissions (db w) (sawn_RolesIDs sawn)) \<or>
       (\<exists>ps. BuildPermissions (sawn_PermissionsStrings sawn) = Inr ps \<and>
          \<not> list_all (holds_as_owner (db w) (fst (getServiceAccountID (sar_ctx_serviceAccountID r)))) ps)"
  shows "db (snd (serviceAccountsCreateHandler r w)) = db w \<and>
         (calls_left w = None \<longrightarrow>
            processServiceAccountWithNestedFromReq r w = (Inl UserDoesntHaveAllPermissionsError, w) \<and>
            serviceAccountsCreateHandler r w = (Responded StatusForbidden [], w))"
proof -
  obtain res w1 where run: "processServiceAccountWithNestedFromReq r w = (res, w1)"
    by (cases "processServiceAccountWithNestedFromReq r w")
  note c = processServiceAccountWithNestedFromReq_cases [OF run]
  have "\<exists>e. res = Inl e"
  proof (cases res)
    case (Inr sawn')
    with c body lacking show ?thesis by auto
  qed simp
  then obtain e where e: "res = Inl e" ..
  have unchanged: "db (snd (serviceAccountsCreateHandler r w)) = db w"
    using run e c by (simp add: serviceAccountsCreateHandler_def)
  have healthy: "processServiceAccountWithNestedFromReq r w = (Inl UserDoesntHaveAllPermissionsError, w) \<and>
            serviceAccountsCreateHandler r w = (Responded StatusForbidden [], w)"
    if "calls_left w = None"
    using processServiceAccountWithNestedFromReq_healthy_rejects [OF body that lacking]
    by (simp add: serviceAccountsCreateHandler_def UserDoesntHaveAllPermissionsError_StatusCode_def)
  show ?thesis using unchanged healthy by blast
qed

theorem create_rejected_without_owner_witness:
  "permissions_for_service_account (db lender_world) ''a1'' =
     [mk_permission ''b1'' ''svc'' Lender ''act'' ''res''] \<and>
   processServiceAccountWithNestedFromReq escalation_request lender_world =
     (Inl UserDoesntHaveAllPermissionsError, lender_world) \<and>
   serviceAccountsCreateHandler escalation_request lender_world =
     (Responded 403 [], lender_world)"
proof -
  have 0: "permissions_for_service_account (db lender_world) ''a1'' =
     [mk_permission ''b1'' ''svc'' Lender ''act'' ''res'']"
    by code_simp
  have 1: "sar_body escalation_request = Some
        \<lparr>sawn_ID = [], sawn_Name = ''mallory'', sawn_Email = [], sawn_Picture = [],
         sawn_PermissionsStrings = [''svc::Owner::act::res''], sawn_PermissionsAliases = [],
         sawn_Permissions = [], sawn_RolesIDs = [], sawn_AuthenticationType = KeyPair\<rparr>"
    by (simp add: escalation_request_def)
  have 2: "BuildPermissions [''svc::Owner::act::res''] =
           Inr [mk_permission [] ''svc'' Owner ''act'' ''res'']"
    by code_simp
  have 3: "\<not> list_all (holds_as_owner (db lender_world)
              (fst (getServiceAccountID (sar_ctx_serviceAccountID escalation_request))))
            [mk_permission [] ''svc'' Owner ''act'' ''res'']"
    by code_simp
  have 4: "calls_left lender_world = None"
    by (simp add: lender_world_def world_holding_def)
  show ?thesis
    using create_rejected_without_owner [OF 1, of lender_world] 0 2 3 4
    by (simp add: StatusForbidden_def)
qed

section \<open>First OAuth2 login\<close>

lemma draw_Inr: "draw w = (Inr u, w') \<Longrightarrow> db w' = db w"
  by (auto simp: draw_def split: list.splits)

lemma Roles_Create_Inr:
  assumes "Roles_Create r w = (Inr r', w')"
  shows "service_accounts (db w') = service_accounts (db w)"
  using assms
  by (auto simp: Roles_Create_def and_then_def assigned_id_def storage_call_def
        split: option.splits nat.splits list.splits)

lemma createServiceAccount_Inr:
  assumes "createServiceAccount sa0 w = (Inr sa, w')"
  shows "\<exists>u rid. sa = sa0\<lparr>sa_ID := u, sa_BaseRoleID := rid\<rparr> \<and>
           service_accounts (db w') = service_accounts (db w) @ [sa]"
proof -
  from assms obtain u w1 where 1: "draw w = (Inr u, w1)"
    and r1: "and_then (Roles_Create \<lparr>r_ID = [], r_Name = ''service-account:'' @ u, r_IsBaseRole = True\<rparr>)
       (\<lambda>r.
     and_then (ServiceAccounts_Create (sa0\<lparr>sa_ID := u, sa_BaseRoleID := r_ID r\<rparr>)) (\<lambda>_.
     and_then (Roles_Bind \<lparr>rb_ServiceAccountID = u, rb_RoleID = r_ID r\<rparr>) (\<lambda>_.
       ret (sa0\<lparr>sa_ID := u, sa_BaseRoleID := r_ID r\<rparr>)))) w1 = (Inr sa, w')"
    unfolding createServiceAccount_def by (erule and_then_InrE)
  from r1 obtain r w2 where
    2: "Roles_Create \<lparr>r_ID = [], r_Name = ''service-account:'' @ u, r_IsBaseRole = True\<rparr> w1 = (Inr r, w2)"
    and r2: "and_then (ServiceAccounts_Create (sa0\<lparr>sa_ID := u, sa_BaseRoleID := r_ID r\<rparr>)) (\<lambda>_.
     and_then (Roles_Bind \<lparr>rb_ServiceAccountID = u, rb_RoleID = r_ID r\<rparr>) (\<lambda>_.
       ret (sa0\<lparr>sa_ID := u, sa_BaseRoleID := r_ID r\<rparr>))) w2 = (Inr sa, w')"
    by (erule and_then_InrE)
  from r2 obtain u3 w3 where
    3: "ServiceAccounts_Create (sa0\<lparr>sa_ID := u, sa_BaseRoleID := r_ID r\<rparr>) w2 = (Inr u3, w3)"
    and r3: "and_then (Roles_Bind \<lparr>rb_ServiceAccountID = u, rb_RoleID = r_ID r\<rparr>) (\<lambda>_.
       ret (sa0\<lparr>sa_ID := u, sa_BaseRoleID := r_ID r\<rparr>)) w3 = (Inr sa, w')"
    by (erule and_then_InrE)
  from r3 obtain u4 w4 where
    4: "Roles_Bind \<lparr>rb_ServiceAccountID = u, rb_RoleID = r_ID r\<rparr> w3 = (Inr u4, w4)"
    and 5: "ret (sa0\<lparr>sa_ID := u, sa_BaseRoleID := r_ID r\<rparr>) w4 = (Inr sa, w')"
    by (erule and_then_InrE)
  have sa: "sa = sa0\<lparr>sa_ID := u, sa_BaseRoleID := r_ID r\<rparr>" and w': "w' = w4"
    using 5 by (simp_all add: ret_def)
  have "service_accounts (db w') = service_accounts (db w) @ [sa]"
    using draw_Inr [OF 1] Roles_Create_Inr [OF 2]
      write_db_Inr [OF 3 [unfolded ServiceAccounts_Create_def]]
      write_db_Inr [OF 4 [unfolded Roles_Bind_def]] sa w'
    by simp
  then show ?thesis using sa by blast
qed

lemma find_or_not_found_run:
  "find_or_not_found P xs w = (r, w') \<Longrightarrow>
   w' = w \<and> (\<forall>x. r = Inr x \<longrightarrow> find P xs = Some x)"
  by (cases "find P xs") (auto simp: find_or_not_found_def throw_def ret_def)

lemma ServiceAccounts_ForEmail_run:
  assumes "ServiceAccounts_ForEmail email w = (r, w')"
  shows "db w' = db w \<and>
         (\<forall>sa. r = Inr sa \<longrightarrow> find (\<lambda>sa. sa_Email sa = email) (service_accounts (db w)) = Some sa)"
proof -
  obtain r1 w1 where 1: "read_db service_accounts w = (r1, w1)"
    by (cases "read_db service_accounts w")
  have k: "db w1 = db w" using read_db_keeps [OF 1] by simp
  show ?thesis
  proof (cases r1)
    case (Inl e)
    have "r = Inl e \<and> w' = w1"
      using assms 1 Inl unfolding ServiceAccounts_ForEmail_def and_then_def by simp
    then show ?thesis using k by simp
  next
    case (Inr xs)
    have xs: "xs = service_accounts (db w)"
      using read_db_Inr [of service_accounts w xs w1] 1 Inr by simp
    have "find_or_not_found (\<lambda>sa. sa_Email sa = email) xs w1 = (r, w')"
      using assms 1 Inr unfolding ServiceAccounts_ForEmail_def and_then_def by simp
    from find_or_not_found_run [OF this] show ?thesis
      unfolding xs using k by simp
  qed
qed

text \<open>
  C6 (the code differs). A first OAuth2 login (the provider accepts the token and no
  account has the returned email) that succeeds adds exactly one account, whose name
  and email are the provider's email and whose id is returned; but the account is built
  without an authentication type, so the stored type is the zero value and not
  \<open>OAuth2\<close>.
\<close>

theorem AuthenticateAccessToken_first_login:
  assumes prov: "provider accessToken = Inr authResult"
    and new: "find (\<lambda>sa. sa_Email sa = ar_Email authResult) (service_accounts (db w)) = None"
    and run: "AuthenticateAccessToken provider accessToken w = (Inr ata, w')"
  shows "\<exists>sa. service_accounts (db w') = service_accounts (db w) @ [sa] \<and>
              sa_AuthenticationType sa = zero_AuthenticationType \<and>
              sa_AuthenticationType sa \<noteq> OAuth2 \<and>
              sa_Name sa = ar_Email authResult \<and>
              sa_Email sa = ar_Email authResult \<and>
              ata_ServiceAccountID ata = sa_ID sa"
proof -
  define sa0 where "sa0 = zero_ServiceAccount\<lparr>sa_Name := ar_Email authResult,
      sa_Email := ar_Email authResult, sa_Picture := ar_Picture authResult\<rparr>"
  obtain r1 w1 where 1: "ServiceAccounts_ForEmail (ar_Email authResult) w = (r1, w1)"
    by (cases "ServiceAccounts_ForEmail (ar_Email authResult) w")
  note f = ServiceAccounts_ForEmail_run [OF 1]
  from f new obtain e where e: "r1 = Inl e" by (cases r1) auto
  have step: "and_then (Create sa0)
                (\<lambda>sa. ret \<lparr>ata_ServiceAccountID = sa_ID sa,
                            ata_AccessToken = ar_AccessToken authResult,
                            ata_Email = ar_Email authResult\<rparr>) w1 = (Inr ata, w')"
    using run prov 1 e
    by (simp add: AuthenticateAccessToken_def sa0_def split: if_splits)
  from step obtain sa w2 where c: "Create sa0 w1 = (Inr sa, w2)"
    and r: "ret \<lparr>ata_ServiceAccountID = sa_ID sa, ata_AccessToken = ar_AccessToken authResult,
                 ata_Email = ar_Email authResult\<rparr> w2 = (Inr ata, w')"
    by (erule and_then_InrE)
  from c have "createServiceAccount sa0 w1 = (Inr sa, w2)"
    unfolding Create_def by (rule WithPGTx_Inr)
  from createServiceAccount_Inr [OF this] obtain u rid where
    sa: "sa = sa0\<lparr>sa_ID := u, sa_BaseRoleID := rid\<rparr>"
    and accs: "service_accounts (db w2) = service_accounts (db w1) @ [sa]"
    by blast
  have "service_accounts (db w') = service_accounts (db w) @ [sa]"
    using accs f r by (simp add: ret_def)
  moreover have "sa_AuthenticationType sa = zero_AuthenticationType"
    by (simp add: sa sa0_def zero_ServiceAccount_def)
  moreover have "sa_Name sa = ar_Email authResult" "sa_Email sa = ar_Email authResult"
    by (simp_all add: sa sa0_def)
  moreover have "ata_ServiceAccountID ata = sa_ID sa"
    using r by (auto simp: ret_def)
  ultimately show ?thesis
    by (auto simp: zero_AuthenticationType_def)
qed

theorem AuthenticateAccessToken_first_login_witness:
  "fst (AuthenticateAccessToken first_login_provider ''tok'' (world_holding [])) =
     Inr \<lparr>ata_ServiceAccountID = ''u1'', ata_AccessToken = ''tok'', ata_Email = ''new@x.com''\<rparr> \<and>
   (\<exists>sa. service_accounts (db (snd (AuthenticateAccessToken first_login_provider ''tok''
                                       (world_holding [])))) =
            service_accounts (db (world_holding [])) @ [sa] \<and>
         sa_AuthenticationType sa = OtherAuthenticationType [] \<and>
         sa_Email sa = ''new@x.com'' \<and> sa_ID sa = ''u1'')"
proof -
  have 1: "first_login_provider ''tok'' =
      Inr \<lparr>ar_Email = ''new@x.com'', ar_AccessToken = ''tok'', ar_Picture = ''pic''\<rparr>"
    by (simp add: first_login_provider_def)
  have 2: "find (\<lambda>sa. sa_Email sa = ar_Email \<lparr>ar_Email = ''new@x.com'', ar_AccessToken = ''tok'',
                ar_Picture = ''pic''\<rparr>) (service_accounts (db (world_holding []))) = None"
    by (simp add: world_holding_def account_a1_def)
  have 3: "fst (AuthenticateAccessToken first_login_provider ''tok'' (world_holding [])) =
     Inr \<lparr>ata_ServiceAccountID = ''u1'', ata_AccessToken = ''tok'', ata_Email = ''new@x.com''\<rparr>"
    by code_simp
  then have 4: "AuthenticateAccessToken first_login_provider ''tok'' (world_holding []) =
     (Inr \<lparr>ata_ServiceAccountID = ''u1'', ata_AccessToken = ''tok'', ata_Email = ''new@x.com''\<rparr>,
      snd (AuthenticateAccessToken first_login_provider ''tok'' (world_holding [])))"
    by (simp add: prod_eq_iff)
  show ?thesis
    using AuthenticateAccessToken_first_login [OF 1 2 4] 3
    by (auto simp: zero_AuthenticationType_def)
qed

end
